theory Spec2Isabelle
  imports Main "HOL-Library.Word" "HOL-Library.Char_ord" "HOL-Library.List_Lexorder"
    "HOL-Library.Log_Nat"
begin

section \<open>go-notify: schema-versioned notifications over a message queue\<close>

text \<open>
  The repository holds two variants of one Go file (package \<open>notify\<close>): \<open>part_001\<close>, whose
  \<open>handle\<close> returns the result of the first message of a batch, and \<open>part_000\<close>, whose
  \<open>handle\<close> writes one result per message of the batch on a channel. The types, \<open>New\<close>,
  \<open>AddSchema\<close> and \<open>Send\<close> are the same text in both and are modelled once.

  The code calls three libraries whose sources are not part of the repository:
  \<open>encoding/json\<close>, \<open>encoding/base64\<close> and \<open>reflect\<close>, and the queue behind the \<open>SQS\<close>
  interface. The first three are modelled below on syntax trees; the queue is a parameter.
\<close>

subsection \<open>Byte strings and JSON texts\<close>

text \<open>
  A Go \<open>string\<close> or \<open>[]byte\<close> is represented by what the code reads it as:
  \<^item> \<open>Json j\<close>: a text that \<open>encoding/json\<close> accepts and reads as the tree \<open>j\<close>;
  \<^item> \<open>Base64 s\<close>: the standard base64 encoding of the byte string \<open>s\<close>;
  \<^item> \<open>RFC3339 t\<close>: the time \<open>t\<close> (in nanoseconds) in the layout \<open>time.Time\<close> marshals to
    and parses;
  \<^item> \<open>Chars cs\<close>: any other string, given by its characters. It is none of the three above.
  Every string of the program is read in at most one of these ways (a message body as JSON,
  the \<open>notification\<close> field as base64, its decoding as JSON, the \<open>time\<close> field as a time), so
  one representative per string is enough. The members of a JSON object keep the order of
  the text, and a key may occur twice. \<open>JNumber n\<close> is the number literal made of the decimal
  digits of \<open>n\<close>; literals with a fraction or an exponent are outside the model, and so are
  strings that are not valid UTF-8 (which \<open>json.Marshal\<close> would rewrite).
\<close>

datatype gostring = Chars string | Json json | Base64 gostring | RFC3339 int
and json = JNull | JBool bool | JNumber int | JString gostring | JArray "json list"
  | JObject "(string \<times> json) list"

subsection \<open>Go values\<close>

text \<open>
  \<open>tval\<close>: values of the static types the model covers: \<open>bool\<close>, \<open>int\<close> (64 bits), \<open>string\<close>
  and structs of exported, untagged fields of these types, in declaration order.
  \<open>gval\<close>: the values \<open>encoding/json\<close> builds when its target is an \<open>interface{}\<close>: \<open>nil\<close>,
  \<open>bool\<close>, \<open>float64\<close>, \<open>string\<close>, \<open>[]interface{}\<close> and \<open>map[string]interface{}\<close>. Every number
  of the model is an integer, so a \<open>float64\<close> is given by its exact integer value.
  \<open>iface\<close>: the contents of an \<open>interface{}\<close> variable (\<open>Notification.Data\<close>, the variable
  \<open>sc\<close> of \<open>Send\<close>): a typed value, a generic value (\<open>Generic GNil\<close> is the nil interface), a
  pointer to a typed value, a pointer to a nil pointer (\<open>PointerToNil z\<close>, where \<open>z\<close> is the
  zero value of the type the nil pointer points to) or a pointer to a pointer to a typed
  value. A pointer in an \<open>iface\<close> is given by the value it points to at that moment; the
  objects that the pointers of the registry refer to are in the store of the state, below.
\<close>

datatype tval = TBool bool | TInt "64 word" | TString gostring | TStruct "(string \<times> tval) list"

datatype gval = GNil | GBool bool | GFloat64 int | GString gostring | GSlice "gval list"
  | GMap "(string \<times> gval) list"

datatype iface = Typed tval | Generic gval | Pointer tval | PointerToNil tval
  | PointerToPointer tval

text \<open>The zero value of the type of a value.\<close>

fun zero :: "tval \<Rightarrow> tval" and zero_fields :: "(string \<times> tval) list \<Rightarrow> (string \<times> tval) list" where
  "zero (TBool _) = TBool False"
| "zero (TInt _) = TInt 0"
| "zero (TString _) = TString (Chars [])"
| "zero (TStruct fs) = TStruct (zero_fields fs)"
| "zero_fields [] = []"
| "zero_fields ((k, v) # fs) = (k, zero v) # zero_fields fs"

text \<open>
  Error values. The first two are the \<open>fmt.Errorf\<close> messages of the repository; the others
  stand for the errors of \<open>encoding/json\<close> (\<open>SyntaxError\<close>, \<open>UnmarshalTypeError\<close>,
  \<open>InvalidUnmarshalError\<close>), of
  \<open>time.Time.UnmarshalJSON\<close>, of \<open>encoding/base64\<close> and of the queue.
\<close>

datatype error =
    SchemaAlreadyExists gostring "64 word"
  | SchemaDoesNotExist gostring "64 word"
  | SyntaxError
  | UnmarshalTypeError
  | InvalidUnmarshalError
  | TimeParseError
  | CorruptInputError
  | TransportError nat

text \<open>Run-time panics of the Go code; a panic is not an error value.\<close>

datatype panic = IndexOutOfRange | InterfaceConversion | ReflectNewNil

datatype 'a result = Return 'a | Fail error | Panic panic

subsection \<open>The data model of the repository\<close>

text \<open>
  \<open>Schema.Schema\<close> is an \<open>interface{}\<close> holding the exemplar: the nil interface
  (\<open>NoExemplar\<close>), a value of the types of \<open>tval\<close> (\<open>Value v\<close>, as the struct value
  \<open>TestData{}\<close> of the repository's test), or a pointer that is not nil to such a value
  (\<open>Ref a\<close>, as \<open>&TestData{}\<close>). A pointer is the address \<open>a\<close> of an object in the store of
  the state; two exemplars with the same address are the same pointer. Exemplars of other
  kinds (nil pointers with a type, pointers to pointers, maps, slices) are not modelled.
\<close>

datatype exemplar = NoExemplar | Value tval | Ref nat

record Schema =
  Type :: gostring
  Version :: "64 word"
  Schema :: exemplar

record Notification =
  Time :: int
  Type :: gostring
  Version :: "64 word"
  Data :: iface

record Message =
  Body :: gostring
  ReceiptHandle :: gostring

text \<open>
  The \<open>SQS\<close> interface: three operations of a service whose state has type \<open>'q\<close>. The input
  structs are given by their fields (\<open>QueueUrl\<close> and \<open>ReceiptHandle\<close>; \<open>QueueUrl\<close>;
  \<open>MessageBody\<close> and \<open>QueueUrl\<close>), the output of \<open>ReceiveMessage\<close> by its \<open>Messages\<close>.
\<close>

record 'q SQS =
  DeleteMessage :: "gostring \<Rightarrow> gostring \<Rightarrow> 'q \<Rightarrow> error option \<times> 'q"
  ReceiveMessage :: "gostring \<Rightarrow> 'q \<Rightarrow> (error + Message list) \<times> 'q"
  SendMessage :: "gostring \<Rightarrow> gostring \<Rightarrow> 'q \<Rightarrow> error option \<times> 'q"

datatype call = CallDelete gostring gostring | CallReceive gostring | CallSend gostring gostring
  | CallSleep int

text \<open>A value written to the channel \<open>ch\<close> of \<open>part_000\<close>: a \<open>Notification\<close> or an error.\<close>

datatype item = ItemNotification Notification | ItemError error

text \<open>
  \<open>Notifications\<close> holds the fields of the Go struct that no method changes. The field
  \<open>Schemas\<close> is a Go map, that is a reference shared by every copy of the struct; its
  contents are part of the state \<open>world\<close>, together with the state of the queue, the list of
  the calls made on the queue and on the clock (oldest first), and the clock that
  \<open>time.Now\<close> reads and \<open>time.Sleep\<close> advances (in nanoseconds, as \<open>time.Duration\<close>).
  The channel \<open>ch\<close> is a reference too: \<open>ch\<close> is the list of the values written to it so
  far, oldest first. A write to the Go channel waits for a reader; the model takes every
  written value to be read in its turn. \<open>store\<close> gives the object at each address, for the
  exemplars that are pointers.
\<close>

record 'q Notifications =
  SQS :: "'q SQS"
  QueueURL :: gostring
  Rate :: int

record 'q world =
  Schemas :: "gostring \<rightharpoonup> (64 word \<rightharpoonup> Schema)"
  remote :: 'q
  calls :: "call list"
  clock :: int
  ch :: "item list"
  store :: "nat \<Rightarrow> tval"

subsection \<open>Numbers: \<open>float64\<close> as \<open>encoding/json\<close> uses it\<close>

text \<open>
  A JSON number decoded into an \<open>interface{}\<close> becomes a \<open>float64\<close>
  (\<open>strconv.ParseFloat\<close>): the literal is rounded to 53 significant bits, ties to the even
  mantissa, and the conversion fails when the result is out of range (\<open>2 ^ 1024\<close> or more).
\<close>

definition float64_round :: "int \<Rightarrow> int" where
  "float64_round n =
     (let a = \<bar>n\<bar>; e = bitlen a - 53 in
      if e \<le> 0 then n
      else
        let p = 2 ^ nat e; q = a div p; r = a mod p; h = p div 2;
            q' = (if h < r \<or> (r = h \<and> odd q) then q + 1 else q)
        in sgn n * (q' * p))"

definition ParseFloat :: "int \<Rightarrow> int option" where
  "ParseFloat n =
     (let f = float64_round n in if 2 ^ 1024 \<le> \<bar>f\<bar> then None else Some f)"

text \<open>
  \<open>json.Marshal\<close> writes a \<open>float64\<close> with \<open>strconv.AppendFloat(b, f, 'f', -1, 64)\<close> (format
  \<open>'e'\<close> from \<open>1e21\<close> on, with the same digits; this is Go 1.8 and later): the decimal with the fewest significant
  digits that \<open>ParseFloat\<close> reads back as \<open>f\<close>, and among those the one nearest to \<open>f\<close>.
  \<open>FormatFloat f\<close> is the value of that decimal, for an integer-valued \<open>f\<close>. Below \<open>2 ^ 53\<close>
  the neighbours of \<open>f\<close> are at most 1 apart and the decimal is \<open>f\<close> itself. From there on
  \<open>f = m * 2 ^ e\<close> with \<open>2 ^ 52 \<le> m < 2 ^ 53\<close>; the decimals read back as \<open>f\<close> lie between
  \<open>lo\<close> and \<open>hi\<close>, the midpoints to the neighbouring floats (the lower neighbour of a power
  of two is half as far), the bounds included when \<open>m\<close> is even. The search tries the
  multiples of \<open>10 ^ k\<close> next to \<open>f\<close>, for \<open>k\<close> downwards. Bounds are kept times 4.
\<close>

fun shortest :: "int \<Rightarrow> int \<Rightarrow> int \<Rightarrow> bool \<Rightarrow> nat \<Rightarrow> int" where
  "shortest a lo4 hi4 incl k =
     (let p = 10 ^ k; down = (a div p) * p; up = down + p;
          okdown = ((lo4 < 4 * down \<and> 4 * down < hi4) \<or> (incl \<and> (4 * down = lo4 \<or> 4 * down = hi4)));
          okup = ((lo4 < 4 * up \<and> 4 * up < hi4) \<or> (incl \<and> (4 * up = lo4 \<or> 4 * up = hi4)))
      in if okdown \<and> okup then (if a - down \<le> up - a then down else up)
         else if okdown then down
         else if okup then up
         else (case k of 0 \<Rightarrow> a | Suc k' \<Rightarrow> shortest a lo4 hi4 incl k'))"

definition FormatFloat :: "int \<Rightarrow> int" where
  "FormatFloat f =
     (let a = \<bar>f\<bar>; e = bitlen a - 53 in
      if e \<le> 0 then f
      else
        let u = 2 ^ nat e; m = a div u;
            lo4 = 4 * a - (if m = 2 ^ 52 then u else 2 * u);
            hi4 = 4 * a + 2 * u
        in sgn f * shortest a lo4 hi4 (even m) (nat (bitlen a)))"

text \<open>\<open>strconv.ParseInt(s, 10, 64)\<close>, which decodes a number into a Go \<open>int\<close>.\<close>

definition ParseInt :: "int \<Rightarrow> 64 word option" where
  "ParseInt n = (if - (2 ^ 63) \<le> n \<and> n < 2 ^ 63 then Some (word_of_int n) else None)"

subsection \<open>\<open>json.Marshal\<close>\<close>

text \<open>
  A struct is written as an object of its fields in declaration order, a map as an object
  of its entries in increasing key order, an \<open>int\<close> in decimal, a pointer as the value it
  points to and a nil pointer as \<open>null\<close>. \<open>json.Marshal\<close> returns no error on the values of the model; the result type
  keeps the error the callers test for.
\<close>

fun marshal_tval :: "tval \<Rightarrow> json"
  and marshal_fields :: "(string \<times> tval) list \<Rightarrow> (string \<times> json) list" where
  "marshal_tval (TBool b) = JBool b"
| "marshal_tval (TInt i) = JNumber (sint i)"
| "marshal_tval (TString s) = JString s"
| "marshal_tval (TStruct fs) = JObject (marshal_fields fs)"
| "marshal_fields [] = []"
| "marshal_fields ((k, v) # fs) = (k, marshal_tval v) # marshal_fields fs"

fun marshal_gval :: "gval \<Rightarrow> json"
  and marshal_elems :: "gval list \<Rightarrow> json list"
  and marshal_entries :: "(string \<times> gval) list \<Rightarrow> (string \<times> json) list" where
  "marshal_gval GNil = JNull"
| "marshal_gval (GBool b) = JBool b"
| "marshal_gval (GFloat64 f) = JNumber (FormatFloat f)"
| "marshal_gval (GString s) = JString s"
| "marshal_gval (GSlice xs) = JArray (marshal_elems xs)"
| "marshal_gval (GMap kvs) = JObject (sort_key fst (marshal_entries kvs))"
| "marshal_elems [] = []"
| "marshal_elems (x # xs) = marshal_gval x # marshal_elems xs"
| "marshal_entries [] = []"
| "marshal_entries ((k, v) # kvs) = (k, marshal_gval v) # marshal_entries kvs"

fun marshal_iface :: "iface \<Rightarrow> json" where
  "marshal_iface (Typed v) = marshal_tval v"
| "marshal_iface (Generic g) = marshal_gval g"
| "marshal_iface (Pointer v) = marshal_tval v"
| "marshal_iface (PointerToNil z) = JNull"
| "marshal_iface (PointerToPointer v) = marshal_tval v"

definition json_Marshal :: "iface \<Rightarrow> error + gostring" where
  "json_Marshal v = Inr (Json (marshal_iface v))"

text \<open>
  \<open>json.Marshal\<close> of a \<open>Notification\<close>: the four fields under the names of their tags.
  \<open>time.Time\<close> marshals itself and fails for a year beyond 9999; the model's clock does not
  reach it.
\<close>

definition json_Marshal_Notification :: "Notification \<Rightarrow> error + gostring" where
  "json_Marshal_Notification n =
     Inr (Json (JObject
       [(''time'', JString (RFC3339 (Time n))),
        (''type'', JString (Notification.Type n)),
        (''version'', JNumber (sint (Notification.Version n))),
        (''notification'', marshal_iface (Data n))]))"

subsection \<open>\<open>json.Unmarshal\<close>\<close>

text \<open>
  \<open>json.Unmarshal\<close> first checks that its input is a JSON text (\<open>SyntaxError\<close> otherwise) and
  then stores the tree into its target, by the target's type. The repository calls it on
  three kinds of target.

  First target: a pointer to an \<open>interface{}\<close> that is nil or holds a value that is not a
  pointer. The decoder does not look into such a value: it replaces it by a generic value, a
  \<open>map[string]interface{}\<close> for an object (a later member with the same key overwrites an
  earlier one), a \<open>float64\<close> for a number. A map is kept as its entries in increasing key
  order.
\<close>

fun map_store :: "string \<Rightarrow> gval \<Rightarrow> (string \<times> gval) list \<Rightarrow> (string \<times> gval) list" where
  "map_store k v [] = [(k, v)]"
| "map_store k v ((k', v') # kvs) =
     (if k = k' then (k, v) # kvs
      else if k < k' then (k, v) # (k', v') # kvs
      else (k', v') # map_store k v kvs)"

fun generic :: "json \<Rightarrow> error + gval"
  and generic_elems :: "json list \<Rightarrow> error + gval list"
  and generic_members :: "(string \<times> json) list \<Rightarrow> (string \<times> gval) list \<Rightarrow> error + (string \<times> gval) list"
where
  "generic JNull = Inr GNil"
| "generic (JBool b) = Inr (GBool b)"
| "generic (JNumber n) =
     (case ParseFloat n of None \<Rightarrow> Inl UnmarshalTypeError | Some f \<Rightarrow> Inr (GFloat64 f))"
| "generic (JString s) = Inr (GString s)"
| "generic (JArray js) =
     (case generic_elems js of Inl e \<Rightarrow> Inl e | Inr xs \<Rightarrow> Inr (GSlice xs))"
| "generic (JObject kvs) =
     (case generic_members kvs [] of Inl e \<Rightarrow> Inl e | Inr m \<Rightarrow> Inr (GMap m))"
| "generic_elems [] = Inr []"
| "generic_elems (j # js) =
     (case generic j of Inl e \<Rightarrow> Inl e
      | Inr x \<Rightarrow> (case generic_elems js of Inl e \<Rightarrow> Inl e | Inr xs \<Rightarrow> Inr (x # xs)))"
| "generic_members [] m = Inr m"
| "generic_members ((k, j) # kvs) m =
     (case generic j of Inl e \<Rightarrow> Inl e | Inr v \<Rightarrow> generic_members kvs (map_store k v m))"

text \<open>
  Second target: a typed value, reached through a pointer. \<open>null\<close> leaves the value as it
  is; a JSON value of the wrong kind, or a number that does not fit an \<open>int\<close>, is an
  \<open>UnmarshalTypeError\<close> and leaves the value as it is. The members of an object are stored
  in the order of the text: a key selects the field of that name, or else the first field
  whose name is equal to it under \<open>EqualFold\<close>; a key that selects no field is skipped. Fields
  without a member keep their value. The decoder goes on after a type error and returns
  the first one at the end: the result is the value as the decoding leaves it and that
  error, if any.

  \<open>EqualFold\<close> is equality after folding (\<open>fold_name\<close>): an ASCII letter to its lower case,
  and the two letters outside ASCII that Unicode folds to an ASCII letter, U+017F (long s,
  the bytes C5 BF) to \<open>s\<close> and U+212A (Kelvin sign, the bytes E2 84 AA) to \<open>k\<close>. This is how
  \<open>encoding/json\<close> compares a key with a field name made of ASCII characters; names with
  other letters outside ASCII are compared byte by byte here.
\<close>

definition lower :: "char \<Rightarrow> char" where
  "lower c = (if CHR ''A'' \<le> c \<and> c \<le> CHR ''Z'' then char_of (of_char c + (32::nat)) else c)"

fun fold_name :: "string \<Rightarrow> string" where
  "fold_name [] = []"
| "fold_name [c] = [lower c]"
| "fold_name [c, d] =
     (if c = CHR 0xC5 \<and> d = CHR 0xBF then [CHR ''s''] else [lower c, lower d])"
| "fold_name (c # d # e # cs) =
     (if c = CHR 0xC5 \<and> d = CHR 0xBF then CHR ''s'' # fold_name (e # cs)
      else if c = CHR 0xE2 \<and> d = CHR 0x84 \<and> e = CHR 0xAA then CHR ''k'' # fold_name cs
      else lower c # fold_name (d # e # cs))"

definition EqualFold :: "string \<Rightarrow> string \<Rightarrow> bool" where
  "EqualFold a b = (fold_name a = fold_name b)"

fun position :: "('a \<Rightarrow> bool) \<Rightarrow> 'a list \<Rightarrow> nat option" where
  "position P [] = None"
| "position P (x # xs) = (if P x then Some 0 else map_option Suc (position P xs))"

definition find_field :: "string \<Rightarrow> string list \<Rightarrow> nat option" where
  "find_field key names =
     (case position (\<lambda>n. n = key) names of
        Some i \<Rightarrow> Some i
      | None \<Rightarrow> position (EqualFold key) names)"

fun decode_tval :: "tval \<Rightarrow> json \<Rightarrow> tval \<times> error option"
  and decode_members ::
    "(string \<times> tval) list \<Rightarrow> (string \<times> json) list \<Rightarrow> (string \<times> tval) list \<times> error option"
where
  "decode_tval cur JNull = (cur, None)"
| "decode_tval (TBool _) (JBool b) = (TBool b, None)"
| "decode_tval (TInt i) (JNumber n) =
     (case ParseInt n of None \<Rightarrow> (TInt i, Some UnmarshalTypeError) | Some i' \<Rightarrow> (TInt i', None))"
| "decode_tval (TString _) (JString s) = (TString s, None)"
| "decode_tval (TStruct fs) (JObject kvs) =
     (case decode_members fs kvs of (fs', e) \<Rightarrow> (TStruct fs', e))"
| "decode_tval cur _ = (cur, Some UnmarshalTypeError)"
| "decode_members fs [] = (fs, None)"
| "decode_members fs ((k, j) # kvs) =
     (case find_field k (map fst fs) of
        None \<Rightarrow> decode_members fs kvs
      | Some i \<Rightarrow>
          (case decode_tval (snd (fs ! i)) j of
             (v, e) \<Rightarrow>
               (case decode_members (fs[i := (fst (fs ! i), v)]) kvs of
                  (fs', e') \<Rightarrow> (fs', case e of None \<Rightarrow> e' | Some err \<Rightarrow> Some err))))"

text \<open>
  \<open>json.Unmarshal(data, re)\<close> of \<open>handle\<close>, where \<open>re\<close> is a pointer that \<open>reflect.New\<close> made.
  The result is \<open>re\<close> after the decoding. A pointer to a nil pointer keeps it nil on \<open>null\<close>
  and otherwise makes it point to a new zero value, which is decoded into. A pointer to a
  pointer that is not nil makes it nil on \<open>null\<close> and otherwise decodes into the value it
  points to. A target that is not a pointer is refused.
\<close>

definition json_Unmarshal_pointer :: "gostring \<Rightarrow> iface \<Rightarrow> error + iface" where
  "json_Unmarshal_pointer data re =
     (case data of
        Json j \<Rightarrow>
          (case re of
             Pointer z \<Rightarrow>
               (case decode_tval z j of
                  (v, None) \<Rightarrow> Inr (Pointer v)
                | (v, Some e) \<Rightarrow> Inl e)
           | PointerToNil z \<Rightarrow>
               (case j of
                  JNull \<Rightarrow> Inr (PointerToNil z)
                | _ \<Rightarrow>
                    (case decode_tval z j of
                       (v, None) \<Rightarrow> Inr (PointerToPointer v)
                     | (v, Some e) \<Rightarrow> Inl e))
           | PointerToPointer z \<Rightarrow>
               (case j of
                  JNull \<Rightarrow> Inr (PointerToNil (zero z))
                | _ \<Rightarrow>
                    (case decode_tval z j of
                       (v, None) \<Rightarrow> Inr (PointerToPointer v)
                     | (v, Some e) \<Rightarrow> Inl e))
           | _ \<Rightarrow> Inl InvalidUnmarshalError)
      | _ \<Rightarrow> Inl SyntaxError)"

text \<open>
  \<open>json.Unmarshal(nd, &sc)\<close> of \<open>Send\<close>, where \<open>sc\<close> is a copy of the interface that holds
  the exemplar. The result is the error or the contents of \<open>sc\<close> afterwards, and the store
  afterwards. When \<open>sc\<close> is nil or holds a value that is not a pointer, \<open>sc\<close> is replaced by
  the generic value (first target) and the store is not touched. When \<open>sc\<close> holds a pointer
  that is not nil, the decoder follows it: the JSON value is decoded into the object the
  pointer refers to, which is the object of the registered exemplar, and \<open>sc\<close> still holds
  the pointer (\<open>Pointer v\<close>, with the value \<open>v\<close> now in the object); what has been decoded
  when a type error is returned stays in the object. \<open>null\<close> is the exception: it sets \<open>sc\<close>
  to nil and leaves the object alone.
\<close>

definition json_Unmarshal_interface ::
  "gostring \<Rightarrow> exemplar \<Rightarrow> (nat \<Rightarrow> tval) \<Rightarrow> (error + iface) \<times> (nat \<Rightarrow> tval)" where
  "json_Unmarshal_interface data sc objects =
     (case data of
        Json j \<Rightarrow>
          (case sc of
             Ref a \<Rightarrow>
               (case j of
                  JNull \<Rightarrow> (Inr (Generic GNil), objects)
                | _ \<Rightarrow>
                    (case decode_tval (objects a) j of
                       (v, None) \<Rightarrow> (Inr (Pointer v), objects(a := v))
                     | (v, Some e) \<Rightarrow> (Inl e, objects(a := v))))
           | _ \<Rightarrow>
               (case generic j of
                  Inl e \<Rightarrow> (Inl e, objects)
                | Inr g \<Rightarrow> (Inr (Generic g), objects)))
      | _ \<Rightarrow> (Inl SyntaxError, objects))"

text \<open>
  Third target: a pointer to a \<open>Notification\<close>. Its fields are selected by their tags
  \<open>time\<close>, \<open>type\<close>, \<open>version\<close> and \<open>notification\<close>, again under \<open>EqualFold\<close>.
  \<open>time.Time\<close> unmarshals itself: \<open>null\<close> is ignored, anything but a string in its layout is
  an error that ends the decoding at once. A type error of \<open>type\<close>, of \<open>version\<close> or inside
  \<open>notification\<close> is saved while the decoding goes on, and the first saved error is
  returned at the end. \<open>Data\<close> is an \<open>interface{}\<close>, so it receives a generic value.
\<close>

definition save :: "error \<Rightarrow> error option \<Rightarrow> error option" where
  "save e saved = (case saved of None \<Rightarrow> Some e | Some e' \<Rightarrow> Some e')"

fun decode_Notification ::
  "Notification \<Rightarrow> error option \<Rightarrow> (string \<times> json) list \<Rightarrow> error + Notification" where
  "decode_Notification n saved [] = (case saved of None \<Rightarrow> Inr n | Some e \<Rightarrow> Inl e)"
| "decode_Notification n saved ((k, j) # kvs) =
     (if EqualFold k ''time'' then
        (case j of
           JNull \<Rightarrow> decode_Notification n saved kvs
         | JString s \<Rightarrow>
             (case s of
                RFC3339 t \<Rightarrow> decode_Notification (n\<lparr>Time := t\<rparr>) saved kvs
              | _ \<Rightarrow> Inl TimeParseError)
         | _ \<Rightarrow> Inl TimeParseError)
      else if EqualFold k ''type'' then
        (case j of
           JNull \<Rightarrow> decode_Notification n saved kvs
         | JString s \<Rightarrow> decode_Notification (n\<lparr>Notification.Type := s\<rparr>) saved kvs
         | _ \<Rightarrow> decode_Notification n (save UnmarshalTypeError saved) kvs)
      else if EqualFold k ''version'' then
        (case j of
           JNull \<Rightarrow> decode_Notification n saved kvs
         | JNumber i \<Rightarrow>
             (case ParseInt i of
                Some v \<Rightarrow> decode_Notification (n\<lparr>Notification.Version := v\<rparr>) saved kvs
              | None \<Rightarrow> decode_Notification n (save UnmarshalTypeError saved) kvs)
         | _ \<Rightarrow> decode_Notification n (save UnmarshalTypeError saved) kvs)
      else if EqualFold k ''notification'' then
        (case generic j of
           Inl e \<Rightarrow> decode_Notification n (save e saved) kvs
         | Inr g \<Rightarrow> decode_Notification (n\<lparr>Data := Generic g\<rparr>) saved kvs)
      else decode_Notification n saved kvs)"

definition json_Unmarshal_Notification :: "gostring \<Rightarrow> Notification \<Rightarrow> error + Notification" where
  "json_Unmarshal_Notification data n =
     (case data of
        Json j \<Rightarrow>
          (case j of
             JObject kvs \<Rightarrow> decode_Notification n None kvs
           | JNull \<Rightarrow> Inr n
           | _ \<Rightarrow> Inl UnmarshalTypeError)
      | _ \<Rightarrow> Inl SyntaxError)"

subsection \<open>\<open>encoding/base64\<close>, \<open>reflect\<close> and the type assertion\<close>

definition base64_EncodeToString :: "gostring \<Rightarrow> gostring" where
  "base64_EncodeToString src = Base64 src"

definition base64_DecodeString :: "gostring \<Rightarrow> error + gostring" where
  "base64_DecodeString s = (case s of Base64 src \<Rightarrow> Inr src | _ \<Rightarrow> Inl CorruptInputError)"

text \<open>
  \<open>reflect.New(reflect.TypeOf(x)).Interface()\<close>: a pointer to a new zero value of the
  dynamic type of \<open>x\<close>. For an exemplar that is a pointer this type is a pointer type, whose
  zero value is the nil pointer. \<open>TypeOf\<close> of the nil interface is nil, and
  \<open>reflect.New(nil)\<close> panics (\<open>None\<close>).
\<close>

definition reflect_New :: "exemplar \<Rightarrow> (nat \<Rightarrow> tval) \<Rightarrow> iface option" where
  "reflect_New x objects =
     (case x of
        NoExemplar \<Rightarrow> None
      | Value v \<Rightarrow> Some (Pointer (zero v))
      | Ref a \<Rightarrow> Some (PointerToNil (zero (objects a))))"

text \<open>The type assertion \<open>x.(string)\<close>; \<open>None\<close> is its panic.\<close>

fun assert_string :: "iface \<Rightarrow> gostring option" where
  "assert_string (Typed (TString s)) = Some s"
| "assert_string (Generic (GString s)) = Some s"
| "assert_string _ = None"

subsection \<open>The calls on the queue and on the clock\<close>

text \<open>Each call runs the operation of \<open>n.SQS\<close> on the state of the queue and is logged.\<close>

definition SQS_DeleteMessage ::
  "'q Notifications \<Rightarrow> gostring \<Rightarrow> 'q world \<Rightarrow> error option \<times> 'q world" where
  "SQS_DeleteMessage n h w =
     (let (e, q) = DeleteMessage (SQS n) (QueueURL n) h (remote w)
      in (e, w\<lparr>remote := q, calls := calls w @ [CallDelete (QueueURL n) h]\<rparr>))"

definition SQS_ReceiveMessage ::
  "'q Notifications \<Rightarrow> 'q world \<Rightarrow> (error + Message list) \<times> 'q world" where
  "SQS_ReceiveMessage n w =
     (let (r, q) = ReceiveMessage (SQS n) (QueueURL n) (remote w)
      in (r, w\<lparr>remote := q, calls := calls w @ [CallReceive (QueueURL n)]\<rparr>))"

definition SQS_SendMessage ::
  "'q Notifications \<Rightarrow> gostring \<Rightarrow> 'q world \<Rightarrow> error option \<times> 'q world" where
  "SQS_SendMessage n body w =
     (let (e, q) = SendMessage (SQS n) body (QueueURL n) (remote w)
      in (e, w\<lparr>remote := q, calls := calls w @ [CallSend body (QueueURL n)]\<rparr>))"

definition time_Sleep :: "int \<Rightarrow> 'q world \<Rightarrow> 'q world" where
  "time_Sleep d w = w\<lparr>clock := clock w + max 0 d, calls := calls w @ [CallSleep d]\<rparr>"

subsection \<open>\<open>New\<close> and \<open>AddSchema\<close>\<close>

text \<open>
  \<open>New\<close> makes an empty map and an empty channel; \<open>Rate\<close> is \<open>1 * time.Second\<close>, in
  nanoseconds.
\<close>

definition New :: "'q SQS \<Rightarrow> gostring \<Rightarrow> 'q world \<Rightarrow> 'q Notifications \<times> 'q world" where
  "New sqs queue w =
     (\<lparr>SQS = sqs, QueueURL = queue, Rate = 1000000000\<rparr>,
      w\<lparr>Schemas := Map.empty, ch := []\<rparr>)"

text \<open>\<open>n.Schemas[t][v]\<close> with its \<open>ok\<close>: reading a key of a missing inner map finds nothing.\<close>

definition lookup :: "(gostring \<rightharpoonup> (64 word \<rightharpoonup> Schema)) \<Rightarrow> gostring \<Rightarrow> 64 word \<Rightarrow> Schema option" where
  "lookup r t v = (case r t of None \<Rightarrow> None | Some schemas \<Rightarrow> schemas v)"

definition AddSchema :: "'q Notifications \<Rightarrow> Schema \<Rightarrow> 'q world \<Rightarrow> error option \<times> 'q world" where
  "AddSchema n schema w =
     (case Schemas w (Schema.Type schema) of
        Some schemas \<Rightarrow>
          (case schemas (Schema.Version schema) of
             Some _ \<Rightarrow>
               (Some (SchemaAlreadyExists (Schema.Type schema) (Schema.Version schema)), w)
           | None \<Rightarrow>
               (None, w\<lparr>Schemas := (Schemas w)
                  (Schema.Type schema \<mapsto> schemas(Schema.Version schema \<mapsto> schema))\<rparr>))
      | None \<Rightarrow>
          (None, w\<lparr>Schemas := (Schemas w)
             (Schema.Type schema \<mapsto> Map.empty(Schema.Version schema \<mapsto> schema))\<rparr>))"

subsection \<open>\<open>Send\<close>\<close>

definition Send :: "'q Notifications \<Rightarrow> Notification \<Rightarrow> 'q world \<Rightarrow> error option \<times> 'q world" where
  "Send n notification w =
     (case lookup (Schemas w) (Notification.Type notification) (Notification.Version notification) of
        None \<Rightarrow>
          (Some (SchemaDoesNotExist (Notification.Type notification)
                   (Notification.Version notification)), w)
      | Some schema \<Rightarrow>
          (let notification = notification\<lparr>Time := clock w\<rparr> in
           case json_Marshal (Data notification) of
             Inl e \<Rightarrow> (Some e, w)
           | Inr nd \<Rightarrow>
               (case json_Unmarshal_interface nd (Schema schema) (store w) of
                  (Inl e, objects) \<Rightarrow> (Some e, w\<lparr>store := objects\<rparr>)
                | (Inr sc, objects) \<Rightarrow>
                    (case json_Marshal sc of
                       Inl e \<Rightarrow> (Some e, w\<lparr>store := objects\<rparr>)
                     | Inr scj \<Rightarrow>
                         (let notification =
                                notification\<lparr>Data := Generic (GString (base64_EncodeToString scj))\<rparr>
                          in case json_Marshal_Notification notification of
                               Inl e \<Rightarrow> (Some e, w\<lparr>store := objects\<rparr>)
                             | Inr body \<Rightarrow> SQS_SendMessage n body (w\<lparr>store := objects\<rparr>))))))"

subsection \<open>\<open>handle\<close>, \<open>receive\<close> and \<open>Receive\<close>\<close>

text \<open>
  Both variants of \<open>handle\<close> decode a message by the same statements (lines 125 to 147 of
  \<open>part_001\<close>, lines 111 to 137 of \<open>part_000\<close>), which read the registry and the store and
  call neither the queue nor the channel; they write to new objects only. \<open>decode\<close> is these
  statements: \<open>Fail e\<close> where they leave with the error \<open>e\<close>, \<open>Panic\<close> where the type assertion
  or \<open>reflect.New\<close> panics, \<open>Return\<close> with the notification they build. \<open>message.Body\<close> is
  taken not to be a nil pointer.
\<close>

definition decode ::
  "(gostring \<rightharpoonup> (64 word \<rightharpoonup> Schema)) \<Rightarrow> (nat \<Rightarrow> tval) \<Rightarrow> Message \<Rightarrow> Notification result" where
  "decode r objects message =
     (case json_Unmarshal_Notification (Body message)
             \<lparr>Time = 0, Type = Chars [], Version = 0, Data = Generic GNil\<rparr> of
        Inl e \<Rightarrow> Fail e
      | Inr notification \<Rightarrow>
          (case lookup r (Notification.Type notification) (Notification.Version notification) of
             None \<Rightarrow>
               Fail (SchemaDoesNotExist (Notification.Type notification)
                       (Notification.Version notification))
           | Some schema \<Rightarrow>
               (case assert_string (Data notification) of
                  None \<Rightarrow> Panic InterfaceConversion
                | Some s \<Rightarrow>
                    (case base64_DecodeString s of
                       Inl e \<Rightarrow> Fail e
                     | Inr data \<Rightarrow>
                         (case reflect_New (Schema schema) objects of
                            None \<Rightarrow> Panic ReflectNewNil
                          | Some re \<Rightarrow>
                              (case json_Unmarshal_pointer data re of
                                 Inl e \<Rightarrow> Fail e
                               | Inr re' \<Rightarrow> Return (notification\<lparr>Data := re'\<rparr>)))))))"

text \<open>
  \<open>handle\<close> of \<open>part_001\<close>: \<open>Return x\<close> is the pair \<open>(x, nil)\<close>, \<open>Fail e\<close> the pair
  \<open>(Notification{}, e)\<close>. \<open>notifications.Messages[0]\<close> panics on an empty batch.
\<close>

definition handle :: "'q Notifications \<Rightarrow> Message list \<Rightarrow> 'q world \<Rightarrow> Notification result \<times> 'q world" where
  "handle n notifications w =
     (case notifications of
        [] \<Rightarrow> (Panic IndexOutOfRange, w)
      | message # _ \<Rightarrow>
          (case decode (Schemas w) (store w) message of
             Fail e \<Rightarrow> (Fail e, w)
           | Panic p \<Rightarrow> (Panic p, w)
           | Return notification \<Rightarrow>
               (let (e, w') = SQS_DeleteMessage n (ReceiptHandle message) w
                in case e of
                     Some err \<Rightarrow> (Fail err, w')
                   | None \<Rightarrow> (Return notification, w'))))"

text \<open>
  \<open>receive\<close> of \<open>part_001\<close> polls until the queue fails or gives a batch that is not empty;
  on a queue that stays empty it does not return (\<open>None\<close>).
\<close>

partial_function (option) receive ::
  "'q Notifications \<Rightarrow> 'q world \<Rightarrow> (Notification result \<times> 'q world) option" where
  "receive n w =
     (case SQS_ReceiveMessage n (time_Sleep (Rate n) w) of
        (Inl err, w') \<Rightarrow> Some (Fail err, w')
      | (Inr notifications, w') \<Rightarrow>
          (if notifications = [] then receive n w' else Some (handle n notifications w')))"

text \<open>
  \<open>Receive\<close> of \<open>part_001\<close>: the error it returns (\<open>None\<close> is \<open>nil\<close>) and the contents of
  \<open>*notification\<close> when it returns.
\<close>

definition Receive ::
  "'q Notifications \<Rightarrow> Notification \<Rightarrow> 'q world \<Rightarrow> ((error option \<times> Notification) result \<times> 'q world) option" where
  "Receive n notification w =
     (case receive n w of
        None \<Rightarrow> None
      | Some (r, w') \<Rightarrow>
          (case r of
             Fail err \<Rightarrow> Some (Return (Some err, notification), w')
           | Panic p \<Rightarrow> Some (Panic p, w')
           | Return data \<Rightarrow> Some (Return (None, data), w')))"

text \<open>
  \<open>handle\<close> of \<open>part_000\<close>: the loop over the batch, each message giving one write to the
  channel. The result is the panic that ended the loop, if any. \<open>Receive\<close> and \<open>receive\<close> of
  \<open>part_000\<close> run \<open>receive\<close> in a goroutine of its own that never returns; they are not
  modelled.
\<close>

fun handle_chan :: "'q Notifications \<Rightarrow> Message list \<Rightarrow> 'q world \<Rightarrow> panic option \<times> 'q world" where
  "handle_chan n [] w = (None, w)"
| "handle_chan n (message # rest) w =
     (case decode (Schemas w) (store w) message of
        Fail e \<Rightarrow> handle_chan n rest (w\<lparr>ch := ch w @ [ItemError e]\<rparr>)
      | Panic p \<Rightarrow> (Some p, w)
      | Return notification \<Rightarrow>
          (let (e, w') = SQS_DeleteMessage n (ReceiptHandle message) w
           in case e of
                Some err \<Rightarrow> handle_chan n rest (w'\<lparr>ch := ch w' @ [ItemError err]\<rparr>)
              | None \<Rightarrow> handle_chan n rest (w'\<lparr>ch := ch w' @ [ItemNotification notification]\<rparr>)))"


subsection \<open>A queue in memory and the values of the repository's test\<close>

text \<open>
  \<open>list_SQS\<close> keeps the messages in a list: \<open>SendMessage\<close> appends the body (the body is
  its own receipt handle), \<open>ReceiveMessage\<close> returns the whole list and \<open>DeleteMessage\<close>
  removes the messages of a handle. \<open>broken_SQS\<close> is the same queue with a \<open>DeleteMessage\<close>
  that fails. \<open>TestData\<close>, the schema \<open>testing\<close> of version 1 and the queue name are those of
  \<open>notify_test.go\<close>. In \<open>fresh\<close> every object of the store is a \<open>TestData{}\<close>. In
  \<open>registered\<close> the schema of the test is the only one; \<open>waiting ms\<close> has the messages \<open>ms\<close> on
  the queue as well, and \<open>polled n w\<close> is the state after the first poll of \<open>receive\<close>.
  \<open>testing_ref\<close> is the same schema with the exemplar \<open>&TestData{}\<close>, the pointer being the
  address 0, and \<open>registered_ref\<close> has it as its only schema.
\<close>

definition list_SQS :: "Message list SQS" where
  "list_SQS = \<lparr>
     DeleteMessage = (\<lambda>url h q. (None, filter (\<lambda>m. ReceiptHandle m \<noteq> h) q)),
     ReceiveMessage = (\<lambda>url q. (Inr q, q)),
     SendMessage = (\<lambda>body url q. (None, q @ [\<lparr>Body = body, ReceiptHandle = body\<rparr>]))\<rparr>"

definition broken_SQS :: "Message list SQS" where
  "broken_SQS = list_SQS\<lparr>DeleteMessage := (\<lambda>url h q. (Some (TransportError 1), q))\<rparr>"

definition test_queue :: "Message list Notifications" where
  "test_queue = \<lparr>SQS = list_SQS, QueueURL = Chars ''test-queue'', Rate = 1000000000\<rparr>"

definition broken_queue :: "Message list Notifications" where
  "broken_queue = \<lparr>SQS = broken_SQS, QueueURL = Chars ''test-queue'', Rate = 1000000000\<rparr>"

definition TestData :: "string \<Rightarrow> int \<Rightarrow> bool \<Rightarrow> tval" where
  "TestData s i b =
     TStruct [(''String'', TString (Chars s)), (''Int'', TInt (word_of_int i)), (''Bool'', TBool b)]"

definition fresh :: "Message list world" where
  "fresh = \<lparr>Schemas = Map.empty, remote = [], calls = [], clock = 1500000000000000000, ch = [],
             store = (\<lambda>a. TestData [] 0 False)\<rparr>"

definition testing :: "64 word \<Rightarrow> Schema" where
  "testing v = \<lparr>Schema.Type = Chars ''testing'', Version = v, Schema = Value (TestData [] 0 False)\<rparr>"

definition testing_ref :: "64 word \<Rightarrow> Schema" where
  "testing_ref v = \<lparr>Schema.Type = Chars ''testing'', Version = v, Schema = Ref 0\<rparr>"

definition registered :: "Message list world" where
  "registered = snd (AddSchema test_queue (testing 1) fresh)"

definition registered_ref :: "Message list world" where
  "registered_ref = snd (AddSchema test_queue (testing_ref 1) fresh)"

definition waiting :: "Message list \<Rightarrow> Message list world" where
  "waiting ms = registered\<lparr>remote := ms\<rparr>"

definition polled :: "Message list Notifications \<Rightarrow> Message list world \<Rightarrow> Message list world" where
  "polled n w = snd (SQS_ReceiveMessage n (time_Sleep (Rate n) w))"

definition notification_of :: "iface \<Rightarrow> Notification" where
  "notification_of v = \<lparr>Time = 0, Type = Chars ''testing'', Version = 1, Data = v\<rparr>"

text \<open>
  A message whose body is an envelope of type \<open>testing\<close> with the version and the
  \<open>notification\<close> member given; \<open>payload1\<close> is the member that \<open>Send\<close> writes for the
  \<open>TestData\<close> of the test. The body of \<open>bare_message\<close> is the envelope
  \<open>{"type":"testing","version":1}\<close>, which has no \<open>notification\<close> member.
\<close>

definition envelope :: "int \<Rightarrow> json \<Rightarrow> gostring" where
  "envelope v payload =
     Json (JObject [(''type'', JString (Chars ''testing'')), (''version'', JNumber v),
                    (''notification'', payload)])"

definition test_message :: "string \<Rightarrow> int \<Rightarrow> json \<Rightarrow> Message" where
  "test_message h v payload = \<lparr>Body = envelope v payload, ReceiptHandle = Chars h\<rparr>"

definition bare_message :: "string \<Rightarrow> Message" where
  "bare_message h =
     \<lparr>Body = Json (JObject [(''type'', JString (Chars ''testing'')), (''version'', JNumber 1)]),
      ReceiptHandle = Chars h\<rparr>"

definition payload1 :: json where
  "payload1 =
     JString (Base64 (Json (JObject
       [(''Bool'', JBool True), (''Int'', JNumber 1), (''String'', JString (Chars ''string''))])))"

text \<open>
  A registry is keyed when every descriptor stands under its own type name and version.
\<close>

definition keyed :: "(gostring \<rightharpoonup> (64 word \<rightharpoonup> Schema)) \<Rightarrow> bool" where
  "keyed r = (\<forall>t v d. lookup r t v = Some d \<longrightarrow> Schema.Type d = t \<and> Schema.Version d = v)"

text \<open>
  The values for which the round trip through \<open>Send\<close> and \<open>handle\<close> is exact.
  \<open>conforms e v\<close>: \<open>v\<close> has the type of the exemplar \<open>e\<close>. \<open>well_typed v\<close>: the field names of
  every struct in \<open>v\<close> are distinct, as Go requires. \<open>exact v\<close>: every \<open>int\<close> in \<open>v\<close> lies
  between \<open>- 2 ^ 53\<close> and \<open>2 ^ 53\<close>, where every integer is a \<open>float64\<close>.
\<close>

fun conforms :: "tval \<Rightarrow> tval \<Rightarrow> bool"
  and conforms_fields :: "(string \<times> tval) list \<Rightarrow> (string \<times> tval) list \<Rightarrow> bool" where
  "conforms (TBool _) (TBool _) = True"
| "conforms (TInt _) (TInt _) = True"
| "conforms (TString _) (TString _) = True"
| "conforms (TStruct es) (TStruct fs) = conforms_fields es fs"
| "conforms _ _ = False"
| "conforms_fields [] [] = True"
| "conforms_fields ((k, e) # es) ((k', v) # fs) = (k = k' \<and> conforms e v \<and> conforms_fields es fs)"
| "conforms_fields _ _ = False"

fun exact :: "tval \<Rightarrow> bool" and exact_fields :: "(string \<times> tval) list \<Rightarrow> bool" where
  "exact (TInt i) = (\<bar>sint i\<bar> \<le> 2 ^ 53)"
| "exact (TStruct fs) = exact_fields fs"
| "exact _ = True"
| "exact_fields [] = True"
| "exact_fields ((k, v) # fs) = (exact v \<and> exact_fields fs)"

fun well_typed :: "tval \<Rightarrow> bool" and well_typed_fields :: "(string \<times> tval) list \<Rightarrow> bool" where
  "well_typed (TStruct fs) = (distinct (map fst fs) \<and> well_typed_fields fs)"
| "well_typed _ = True"
| "well_typed_fields [] = True"
| "well_typed_fields ((k, v) # fs) = (well_typed v \<and> well_typed_fields fs)"

section \<open>Properties\<close>

subsection \<open>The registry\<close>

lemma lookup_AddSchema:
  "lookup (Schemas (snd (AddSchema n d w))) t v =
     (if t = Schema.Type d \<and> v = Schema.Version d \<and> lookup (Schemas w) t v = None then Some d
      else lookup (Schemas w) t v)"
  by (auto simp: AddSchema_def lookup_def split: option.splits)

lemma AddSchema_frame:
  "remote (snd (AddSchema n d w)) = remote w" "calls (snd (AddSchema n d w)) = calls w"
  "clock (snd (AddSchema n d w)) = clock w" "ch (snd (AddSchema n d w)) = ch w"
  "store (snd (AddSchema n d w)) = store w"
  by (auto simp: AddSchema_def split: option.splits)

lemma AddSchema_result:
  "fst (AddSchema n d w) =
     (if lookup (Schemas w) (Schema.Type d) (Schema.Version d) = None then None
      else Some (SchemaAlreadyExists (Schema.Type d) (Schema.Version d)))"
  by (auto simp: AddSchema_def lookup_def split: option.splits)

lemma AddSchema_unchanged:
  "lookup (Schemas w) (Schema.Type d) (Schema.Version d) \<noteq> None \<Longrightarrow> snd (AddSchema n d w) = w"
  by (auto simp: AddSchema_def lookup_def split: option.splits)

text \<open>
  C8. Whatever the registry holds, after \<open>AddSchema d\<close> a second \<open>AddSchema d\<close> returns the
  error "Schema already exists" for the type and version of \<open>d\<close> and leaves the registry
  (and the rest of the state) as it was. A descriptor \<open>d'\<close> of the same type name and another
  version, not registered before, is then accepted and stands in the registry.
\<close>

theorem AddSchema_twice:
  "AddSchema n d (snd (AddSchema n d w)) =
     (Some (SchemaAlreadyExists (Schema.Type d) (Schema.Version d)), snd (AddSchema n d w))
   \<and> (Schema.Type d' = Schema.Type d \<and> Schema.Version d' \<noteq> Schema.Version d
        \<and> lookup (Schemas w) (Schema.Type d') (Schema.Version d') = None
      \<longrightarrow> fst (AddSchema n d' (snd (AddSchema n d w))) = None
          \<and> lookup (Schemas (snd (AddSchema n d' (snd (AddSchema n d w)))))
                (Schema.Type d') (Schema.Version d') = Some d')"
proof -
  let ?w1 = "snd (AddSchema n d w)"
  have present: "lookup (Schemas ?w1) (Schema.Type d) (Schema.Version d) \<noteq> None"
    by (simp add: lookup_AddSchema)
  have "fst (AddSchema n d ?w1) = Some (SchemaAlreadyExists (Schema.Type d) (Schema.Version d))"
    using present by (simp add: AddSchema_result)
  moreover have "snd (AddSchema n d ?w1) = ?w1"
    using present by (rule AddSchema_unchanged)
  ultimately have first: "AddSchema n d ?w1 =
      (Some (SchemaAlreadyExists (Schema.Type d) (Schema.Version d)), ?w1)"
    by (simp add: prod_eq_iff)
  have second: "fst (AddSchema n d' ?w1) = None
      \<and> lookup (Schemas (snd (AddSchema n d' ?w1))) (Schema.Type d') (Schema.Version d') = Some d'"
    if "Schema.Type d' = Schema.Type d" "Schema.Version d' \<noteq> Schema.Version d"
       "lookup (Schemas w) (Schema.Type d') (Schema.Version d') = None"
  proof -
    have "lookup (Schemas ?w1) (Schema.Type d') (Schema.Version d') = None"
      using that by (simp add: lookup_AddSchema)
    then show ?thesis by (simp add: AddSchema_result lookup_AddSchema)
  qed
  from first second show ?thesis by blast
qed

theorem AddSchema_twice_witness:
  "AddSchema test_queue (testing 1) registered =
     (Some (SchemaAlreadyExists (Chars ''testing'') 1), registered)
   \<and> fst (AddSchema test_queue (testing 2) registered) = None
   \<and> lookup (Schemas (snd (AddSchema test_queue (testing 2) registered))) (Chars ''testing'') 2
       = Some (testing 2)"
  using AddSchema_twice [of test_queue "testing 1" fresh "testing 2"]
  by (simp add: registered_def testing_def fresh_def lookup_def)


subsection \<open>What each call leaves unchanged\<close>

lemma SQS_DeleteMessage_frame:
  "Schemas (snd (SQS_DeleteMessage n h w)) = Schemas w"
  "ch (snd (SQS_DeleteMessage n h w)) = ch w"
  "calls (snd (SQS_DeleteMessage n h w)) = calls w @ [CallDelete (QueueURL n) h]"
  "fst (SQS_DeleteMessage n h w) = fst (DeleteMessage (SQS n) (QueueURL n) h (remote w))"
  "store (snd (SQS_DeleteMessage n h w)) = store w"
  by (simp_all add: SQS_DeleteMessage_def split: prod.splits)

lemma SQS_SendMessage_frame:
  "Schemas (snd (SQS_SendMessage n b w)) = Schemas w"
  "ch (snd (SQS_SendMessage n b w)) = ch w"
  "calls (snd (SQS_SendMessage n b w)) = calls w @ [CallSend b (QueueURL n)]"
  "store (snd (SQS_SendMessage n b w)) = store w"
  by (simp_all add: SQS_SendMessage_def split: prod.splits)

lemma SQS_ReceiveMessage_frame:
  "Schemas (snd (SQS_ReceiveMessage n w)) = Schemas w"
  "ch (snd (SQS_ReceiveMessage n w)) = ch w"
  "calls (snd (SQS_ReceiveMessage n w)) = calls w @ [CallReceive (QueueURL n)]"
  "store (snd (SQS_ReceiveMessage n w)) = store w"
  by (simp_all add: SQS_ReceiveMessage_def split: prod.splits)

lemma time_Sleep_frame:
  "Schemas (time_Sleep d w) = Schemas w" "ch (time_Sleep d w) = ch w"
  "remote (time_Sleep d w) = remote w" "store (time_Sleep d w) = store w"
  by (simp_all add: time_Sleep_def)

lemma poll_list_SQS:
  "SQS n = list_SQS \<or> SQS n = broken_SQS \<Longrightarrow>
   SQS_ReceiveMessage n (time_Sleep (Rate n) (waiting ms)) = (Inr ms, polled n (waiting ms))"
  by (auto simp: polled_def SQS_ReceiveMessage_def time_Sleep_def waiting_def list_SQS_def
      broken_SQS_def)

lemma polled_fields:
  "Schemas (polled n w) = Schemas w" "ch (polled n w) = ch w"
  "calls (polled n w) = calls w @ [CallSleep (Rate n), CallReceive (QueueURL n)]"
  "store (polled n w) = store w"
  by (simp_all add: polled_def SQS_ReceiveMessage_frame time_Sleep_def)

subsection \<open>\<open>Send\<close> without a schema\<close>

text \<open>
  C7. When the registry has no schema for the type and version of the notification, \<open>Send\<close>
  returns the error "Schema does not exist" for them and leaves the whole state as it was:
  the list of calls is the same, so \<open>SendMessage\<close> was not called. The registry that \<open>New\<close>
  makes is empty, so this is what \<open>Send\<close> does before any \<open>AddSchema\<close>.
\<close>

theorem Send_without_schema:
  "(lookup (Schemas w) (Notification.Type notification) (Notification.Version notification) = None
      \<longrightarrow> Send n notification w =
            (Some (SchemaDoesNotExist (Notification.Type notification)
                     (Notification.Version notification)), w))
   \<and> Send (fst (New sqs queue w)) notification (snd (New sqs queue w)) =
       (Some (SchemaDoesNotExist (Notification.Type notification)
                (Notification.Version notification)), snd (New sqs queue w))"
  by (simp add: Send_def New_def lookup_def)

theorem Send_without_schema_witness:
  "Send test_queue (notification_of (Typed (TestData ''string'' 1 True))) fresh =
     (Some (SchemaDoesNotExist (Chars ''testing'') 1), fresh)
   \<and> calls fresh = []"
  using Send_without_schema [of fresh "notification_of (Typed (TestData ''string'' 1 True))" test_queue]
  by (simp add: fresh_def notification_of_def lookup_def)

subsection \<open>The two variants of \<open>handle\<close>\<close>

lemma Send_Schemas: "Schemas (snd (Send n x w)) = Schemas w"
  by (simp add: Send_def SQS_SendMessage_frame Let_def
      split: option.splits sum.splits prod.splits)

lemma handle_Cons:
  "handle n (message # rest) w =
     (case decode (Schemas w) (store w) message of
        Fail e \<Rightarrow> (Fail e, w)
      | Panic p \<Rightarrow> (Panic p, w)
      | Return notification \<Rightarrow>
          (case fst (SQS_DeleteMessage n (ReceiptHandle message) w) of
             Some err \<Rightarrow> (Fail err, snd (SQS_DeleteMessage n (ReceiptHandle message) w))
           | None \<Rightarrow> (Return notification, snd (SQS_DeleteMessage n (ReceiptHandle message) w))))"
  by (simp add: handle_def split: result.splits prod.splits option.splits)

lemma handle_chan_Cons:
  "handle_chan n (message # rest) w =
     (case decode (Schemas w) (store w) message of
        Fail e \<Rightarrow> handle_chan n rest (w\<lparr>ch := ch w @ [ItemError e]\<rparr>)
      | Panic p \<Rightarrow> (Some p, w)
      | Return notification \<Rightarrow>
          (case fst (SQS_DeleteMessage n (ReceiptHandle message) w) of
             Some err \<Rightarrow>
               handle_chan n rest
                 (snd (SQS_DeleteMessage n (ReceiptHandle message) w)\<lparr>ch := ch w @ [ItemError err]\<rparr>)
           | None \<Rightarrow>
               handle_chan n rest
                 (snd (SQS_DeleteMessage n (ReceiptHandle message) w)
                    \<lparr>ch := ch w @ [ItemNotification notification]\<rparr>)))"
  by (simp add: SQS_DeleteMessage_def split: result.splits prod.splits option.splits)

lemma handle_Schemas: "Schemas (snd (handle n ms w)) = Schemas w"
proof (cases ms)
  case Nil
  then show ?thesis by (simp add: handle_def)
next
  case (Cons m rest)
  then show ?thesis
    by (simp add: handle_Cons SQS_DeleteMessage_frame split: result.splits option.splits)
qed

lemma handle_chan_Schemas: "Schemas (snd (handle_chan n ms w)) = Schemas w"
proof (induction ms arbitrary: w)
  case Nil
  show ?case by simp
next
  case (Cons m ms)
  show ?case
    by (simp only: handle_chan_Cons)
       (simp add: Cons.IH SQS_DeleteMessage_frame split: result.splits option.splits)
qed

lemma handle_store: "store (snd (handle n ms w)) = store w"
proof (cases ms)
  case Nil
  then show ?thesis by (simp add: handle_def)
next
  case (Cons m rest)
  then show ?thesis
    by (simp add: handle_Cons SQS_DeleteMessage_frame split: result.splits option.splits)
qed

lemma handle_chan_store: "store (snd (handle_chan n ms w)) = store w"
proof (induction ms arbitrary: w)
  case Nil
  show ?case by simp
next
  case (Cons m ms)
  show ?case
    by (simp only: handle_chan_Cons)
       (simp add: Cons.IH SQS_DeleteMessage_frame split: result.splits option.splits)
qed

lemma receive_Schemas:
  assumes returns: "receive n0 w0 = Some y0"
  shows "Schemas (snd y0) = Schemas w0"
proof (rule receive.raw_induct [where P = "\<lambda>n w y. Schemas (snd y) = Schemas w", OF _ returns])
  fix f :: "'a Notifications \<Rightarrow> 'a world \<Rightarrow> (Notification result \<times> 'a world) option"
  fix n w y
  assume IH: "\<And>m v z. f m v = Some z \<Longrightarrow> Schemas (snd z) = Schemas v"
  assume step: "(case SQS_ReceiveMessage n (time_Sleep (Rate n) w) of
      (Inl err, w') \<Rightarrow> Some (Fail err, w')
      | (Inr notifications, w') \<Rightarrow>
          if notifications = [] then f n w' else Some (handle n notifications w')) = Some y"
  obtain x w1 where p: "SQS_ReceiveMessage n (time_Sleep (Rate n) w) = (x, w1)"
    by (cases "SQS_ReceiveMessage n (time_Sleep (Rate n) w)")
  have w1: "Schemas w1 = Schemas w"
    using SQS_ReceiveMessage_frame(1) [of n "time_Sleep (Rate n) w"] p
    by (simp add: time_Sleep_frame)
  show "Schemas (snd y) = Schemas w"
  proof (cases x)
    case (Inl err)
    with step p w1 show ?thesis by auto
  next
    case (Inr notifications)
    show ?thesis
    proof (cases "notifications = []")
      case True
      with step p Inr have "f n w1 = Some y" by simp
      then have "Schemas (snd y) = Schemas w1" by (rule IH)
      with w1 show ?thesis by simp
    next
      case False
      with step p Inr have "handle n notifications w1 = y" by simp
      then have "Schemas (snd y) = Schemas w1"
        using handle_Schemas [of n notifications w1] by simp
      with w1 show ?thesis by simp
    qed
  qed
qed

lemma receive_batch:
  "SQS_ReceiveMessage n (time_Sleep (Rate n) w) = (Inr (m # ms), w') \<Longrightarrow>
   receive n w = Some (handle n (m # ms) w')"
  by (subst receive.simps) simp

declare handle_chan.simps(2) [simp del]



lemma handle_ch: "ch (snd (handle n ms w)) = ch w"
proof (cases ms)
  case Nil
  then show ?thesis by (simp add: handle_def)
next
  case (Cons m rest)
  then show ?thesis
    by (simp add: handle_Cons SQS_DeleteMessage_frame split: result.splits option.splits)
qed








text \<open>
  C10. On a batch of one message the \<open>handle\<close> of \<open>part_000\<close> leaves the state that the
  \<open>handle\<close> of \<open>part_001\<close> leaves, with one more value on the channel: the notification that
  \<open>part_001\<close> returns, or the error that it returns. Where one panics so does the other.
\<close>

theorem handle_variants_agree:
  "handle_chan n [m] w =
     (case handle n [m] w of
        (Return x, w') \<Rightarrow> (None, w'\<lparr>ch := ch w @ [ItemNotification x]\<rparr>)
      | (Fail e, w') \<Rightarrow> (None, w'\<lparr>ch := ch w @ [ItemError e]\<rparr>)
      | (Panic p, w') \<Rightarrow> (Some p, w'))"
  by (simp add: handle_Cons handle_chan_Cons Let_def split: result.splits option.splits)

text \<open>
  The four steps of the decoding that can leave with an error, and the type assertion
  between them that can panic.
\<close>

lemma decode_failures:
  "json_Unmarshal_Notification (Body m)
      \<lparr>Time = 0, Type = Chars [], Version = 0, Data = Generic GNil\<rparr> = Inl e
   \<Longrightarrow> decode r objects m = Fail e"
  "json_Unmarshal_Notification (Body m)
      \<lparr>Time = 0, Type = Chars [], Version = 0, Data = Generic GNil\<rparr> = Inr x
   \<Longrightarrow> lookup r (Notification.Type x) (Notification.Version x) = None
   \<Longrightarrow> decode r objects m =
         Fail (SchemaDoesNotExist (Notification.Type x) (Notification.Version x))"
  "json_Unmarshal_Notification (Body m)
      \<lparr>Time = 0, Type = Chars [], Version = 0, Data = Generic GNil\<rparr> = Inr x
   \<Longrightarrow> lookup r (Notification.Type x) (Notification.Version x) = Some schema
   \<Longrightarrow> assert_string (Data x) = Some s
   \<Longrightarrow> base64_DecodeString s = Inl e
   \<Longrightarrow> decode r objects m = Fail e"
  "json_Unmarshal_Notification (Body m)
      \<lparr>Time = 0, Type = Chars [], Version = 0, Data = Generic GNil\<rparr> = Inr x
   \<Longrightarrow> lookup r (Notification.Type x) (Notification.Version x) = Some schema
   \<Longrightarrow> assert_string (Data x) = Some s
   \<Longrightarrow> base64_DecodeString s = Inr data
   \<Longrightarrow> reflect_New (Schema schema) objects = Some re
   \<Longrightarrow> json_Unmarshal_pointer data re = Inl e
   \<Longrightarrow> decode r objects m = Fail e"
  by (simp_all add: decode_def)

lemma decode_assertion_panics:
  "json_Unmarshal_Notification (Body m)
      \<lparr>Time = 0, Type = Chars [], Version = 0, Data = Generic GNil\<rparr> = Inr x
   \<Longrightarrow> lookup r (Notification.Type x) (Notification.Version x) = Some schema
   \<Longrightarrow> assert_string (Data x) = None
   \<Longrightarrow> decode r objects m = Panic InterfaceConversion"
  by (simp add: decode_def)

text \<open>
  Where the decoding of a message leaves with the error \<open>e\<close> (the body is not the JSON of
  an envelope, the registry has no schema for its type and version, the payload is not
  base64, or the payload does not fit the exemplar), \<open>handle\<close> of \<open>part_001\<close> returns \<open>e\<close> and
  the state is the one it started from, so no \<open>DeleteMessage\<close> was called; a \<open>Receive\<close> whose
  poll gave the batch returns \<open>e\<close> and leaves \<open>*notification\<close> alone. \<open>handle\<close> of \<open>part_000\<close>
  writes \<open>e\<close> to the channel and goes on with the rest of the batch from that same state.
  This does not cover the envelopes on which the decoding panics.
\<close>

theorem decode_failure_keeps_message:
  "decode (Schemas w) (store w) m = Fail e \<longrightarrow>
     handle n (m # rest) w = (Fail e, w)
     \<and> handle_chan n (m # rest) w = handle_chan n rest (w\<lparr>ch := ch w @ [ItemError e]\<rparr>)
     \<and> (SQS_ReceiveMessage n (time_Sleep (Rate n) v) = (Inr (m # rest), w)
          \<longrightarrow> Receive n out v = Some (Return (Some e, out), w))"
  by (simp add: handle_Cons handle_chan_Cons Receive_def receive_batch)

theorem decode_failure_keeps_message_witness:
  "decode (Schemas (polled test_queue (waiting [test_message ''h'' 2 payload1])))
      (store (polled test_queue (waiting [test_message ''h'' 2 payload1])))
      (test_message ''h'' 2 payload1) = Fail (SchemaDoesNotExist (Chars ''testing'') 2)
   \<and> handle test_queue [test_message ''h'' 2 payload1]
        (polled test_queue (waiting [test_message ''h'' 2 payload1]))
     = (Fail (SchemaDoesNotExist (Chars ''testing'') 2),
        polled test_queue (waiting [test_message ''h'' 2 payload1]))
   \<and> Receive test_queue (notification_of (Generic GNil)) (waiting [test_message ''h'' 2 payload1])
     = Some (Return (Some (SchemaDoesNotExist (Chars ''testing'') 2), notification_of (Generic GNil)),
             polled test_queue (waiting [test_message ''h'' 2 payload1]))
   \<and> calls (polled test_queue (waiting [test_message ''h'' 2 payload1]))
     = [CallSleep 1000000000, CallReceive (Chars ''test-queue'')]"
proof -
  let ?m = "test_message ''h'' 2 payload1"
  let ?w = "polled test_queue (waiting [?m])"
  have poll: "SQS_ReceiveMessage test_queue (time_Sleep (Rate test_queue) (waiting [?m]))
      = (Inr [?m], ?w)"
    by (rule poll_list_SQS) (simp add: test_queue_def)
  have dec: "decode (Schemas ?w) (store ?w) ?m = Fail (SchemaDoesNotExist (Chars ''testing'') 2)"
    by code_simp
  have log: "calls ?w = [CallSleep 1000000000, CallReceive (Chars ''test-queue'')]"
    by code_simp
  from decode_failure_keeps_message [of ?w ?m "SchemaDoesNotExist (Chars ''testing'') 2"
      test_queue "[]" "waiting [?m]" "notification_of (Generic GNil)"] poll dec log
  show ?thesis by blast
qed

text \<open>
  C6. When a message decodes to the notification \<open>x\<close> and the \<open>DeleteMessage\<close> that follows
  fails with the error \<open>err\<close>, \<open>handle\<close> of \<open>part_001\<close> returns \<open>err\<close> and not \<open>x\<close>, and so does
  a \<open>Receive\<close> whose poll gave the batch; \<open>handle\<close> of \<open>part_000\<close> writes \<open>err\<close> to the channel,
  not \<open>x\<close>, and goes on with the rest of the batch.
\<close>

theorem delete_failure_is_returned:
  "decode (Schemas w) (store w) m = Return x
   \<and> fst (DeleteMessage (SQS n) (QueueURL n) (ReceiptHandle m) (remote w)) = Some err \<longrightarrow>
     fst (handle n (m # rest) w) = Fail err
     \<and> handle_chan n (m # rest) w =
         handle_chan n rest
           (snd (SQS_DeleteMessage n (ReceiptHandle m) w)
              \<lparr>ch := ch w @ [ItemError err]\<rparr>)
     \<and> (SQS_ReceiveMessage n (time_Sleep (Rate n) v) = (Inr (m # rest), w)
          \<longrightarrow> Receive n out v =
                Some (Return (Some err, out), snd (SQS_DeleteMessage n (ReceiptHandle m) w)))"
  by (simp add: handle_Cons handle_chan_Cons Receive_def receive_batch SQS_DeleteMessage_frame Let_def)

theorem delete_failure_is_returned_witness:
  "decode (Schemas (polled broken_queue (waiting [test_message ''h'' 1 payload1])))
      (store (polled broken_queue (waiting [test_message ''h'' 1 payload1])))
      (test_message ''h'' 1 payload1)
     = Return \<lparr>Time = 0, Type = Chars ''testing'', Version = 1,
               Data = Pointer (TestData ''string'' 1 True)\<rparr>
   \<and> fst (handle broken_queue [test_message ''h'' 1 payload1]
        (polled broken_queue (waiting [test_message ''h'' 1 payload1])))
     = Fail (TransportError 1)
   \<and> Receive broken_queue (notification_of (Generic GNil)) (waiting [test_message ''h'' 1 payload1])
     = Some (Return (Some (TransportError 1), notification_of (Generic GNil)),
             snd (SQS_DeleteMessage broken_queue (ReceiptHandle (test_message ''h'' 1 payload1))
                    (polled broken_queue (waiting [test_message ''h'' 1 payload1]))))"
proof -
  let ?m = "test_message ''h'' 1 payload1"
  let ?w = "polled broken_queue (waiting [?m])"
  let ?x = "\<lparr>Time = 0, Type = Chars ''testing'', Version = 1,
             Data = Pointer (TestData ''string'' 1 True)\<rparr>"
  have poll: "SQS_ReceiveMessage broken_queue (time_Sleep (Rate broken_queue) (waiting [?m]))
      = (Inr [?m], ?w)"
    by (rule poll_list_SQS) (simp add: broken_queue_def)
  have dec: "decode (Schemas ?w) (store ?w) ?m = Return ?x"
    by code_simp
  have del: "fst (DeleteMessage (SQS broken_queue) (QueueURL broken_queue) (ReceiptHandle ?m)
      (remote ?w)) = Some (TransportError 1)"
    by (simp add: broken_queue_def broken_SQS_def)
  from delete_failure_is_returned [of ?w ?m ?x broken_queue "TransportError 1" "[]"
      "waiting [?m]" "notification_of (Generic GNil)"] poll dec del
  show ?thesis by blast
qed

subsection \<open>The registry is only ever extended\<close>

lemma keyed_AddSchema: "keyed (Schemas w) \<Longrightarrow> keyed (Schemas (snd (AddSchema n d w)))"
  unfolding keyed_def by (simp add: lookup_AddSchema)

lemma Receive_Schemas: "Receive n out w = Some z \<Longrightarrow> Schemas (snd z) = Schemas w"
  using receive_Schemas [of n w]
  by (auto simp: Receive_def split: option.splits result.splits)

lemma keyed_New: "keyed (Schemas (snd (New sqs queue w)))"
  by (simp add: New_def keyed_def lookup_def)

lemma Send_store:
  assumes "lookup (Schemas w) (Notification.Type x) (Notification.Version x) = Some s"
    and "\<forall>a. Schema s \<noteq> Ref a"
  shows "store (snd (Send n x w)) = store w"
proof (cases "Schema s")
  case NoExemplar
  with assms(1) show ?thesis
    by (simp add: Send_def json_Unmarshal_interface_def SQS_SendMessage_frame Let_def
        split: gostring.splits sum.splits)
next
  case (Value e)
  with assms(1) show ?thesis
    by (simp add: Send_def json_Unmarshal_interface_def SQS_SendMessage_frame Let_def
        split: gostring.splits sum.splits)
next
  case (Ref a)
  with assms(2) show ?thesis by simp
qed

text \<open>
  The map of the registry. \<open>AddSchema\<close> keeps every descriptor that the registry holds,
  under the same type name and version, and keeps the registry keyed: a pair of type name
  and version has one descriptor, its own. The registry that \<open>New\<close> makes is keyed. \<open>Send\<close>,
  both variants of \<open>handle\<close>, and \<open>receive\<close> and \<open>Receive\<close> when they return, leave the map
  as it was. The objects that the exemplars point to are left as they were by both
  variants of \<open>handle\<close>, and by a \<open>Send\<close> whose schema has an exemplar that is not a pointer.
  A \<open>Send\<close> whose schema has a pointer as its exemplar is not covered.
\<close>

theorem registry_invariant:
  "(lookup (Schemas w) t v = Some d \<longrightarrow> lookup (Schemas (snd (AddSchema n d' w))) t v = Some d)
   \<and> (keyed (Schemas w) \<longrightarrow> keyed (Schemas (snd (AddSchema n d' w))))
   \<and> keyed (Schemas (snd (New sqs queue w)))
   \<and> Schemas (snd (Send n x w)) = Schemas w
   \<and> Schemas (snd (handle n ms w)) = Schemas w
   \<and> Schemas (snd (handle_chan n ms w)) = Schemas w
   \<and> (receive n w = Some y \<longrightarrow> Schemas (snd y) = Schemas w)
   \<and> (Receive n out w = Some z \<longrightarrow> Schemas (snd z) = Schemas w)
   \<and> store (snd (handle n ms w)) = store w
   \<and> store (snd (handle_chan n ms w)) = store w
   \<and> (lookup (Schemas w) (Notification.Type x) (Notification.Version x) = Some s
        \<and> (\<forall>a. Schema s \<noteq> Ref a)
        \<longrightarrow> store (snd (Send n x w)) = store w)"
proof -
  have kept: "lookup (Schemas w) t v = Some d \<longrightarrow>
      lookup (Schemas (snd (AddSchema n d' w))) t v = Some d"
    by (simp add: lookup_AddSchema)
  have key: "keyed (Schemas w) \<longrightarrow> keyed (Schemas (snd (AddSchema n d' w)))"
    using keyed_AddSchema [of w n d'] by blast
  have rcv: "receive n w = Some y \<longrightarrow> Schemas (snd y) = Schemas w"
    using receive_Schemas [of n w y] by blast
  have Rcv: "Receive n out w = Some z \<longrightarrow> Schemas (snd z) = Schemas w"
    using Receive_Schemas [of n out w z] by blast
  have snd: "lookup (Schemas w) (Notification.Type x) (Notification.Version x) = Some s
        \<and> (\<forall>a. Schema s \<noteq> Ref a)
        \<longrightarrow> store (snd (Send n x w)) = store w"
    using Send_store [of w x s n] by blast
  show ?thesis
    by (intro conjI kept key rcv Rcv snd keyed_New Send_Schemas handle_Schemas
        handle_chan_Schemas handle_store handle_chan_store)
qed

theorem registry_invariant_witness:
  "lookup (Schemas (snd (AddSchema test_queue (testing 2) registered))) (Chars ''testing'') 1
     = Some (testing 1)
   \<and> keyed (Schemas (snd (AddSchema test_queue (testing 2) registered)))
   \<and> Schemas (snd (Send test_queue (notification_of (Typed (TestData ''string'' 1 True)))
         registered)) = Schemas registered
   \<and> receive test_queue (waiting [test_message ''h'' 1 payload1])
     = Some (handle test_queue [test_message ''h'' 1 payload1]
               (polled test_queue (waiting [test_message ''h'' 1 payload1])))
   \<and> Schemas (snd (handle test_queue [test_message ''h'' 1 payload1]
         (polled test_queue (waiting [test_message ''h'' 1 payload1]))))
     = Schemas (waiting [test_message ''h'' 1 payload1])
   \<and> Schemas (snd (the (Receive test_queue (notification_of (Generic GNil))
         (waiting [test_message ''h'' 1 payload1]))))
     = Schemas (waiting [test_message ''h'' 1 payload1])
   \<and> store (snd (Send test_queue (notification_of (Typed (TestData ''string'' 1 True)))
         registered)) = store registered"
proof -
  let ?m = "test_message ''h'' 1 payload1"
  let ?w = "polled test_queue (waiting [?m])"
  let ?out = "notification_of (Generic GNil)"
  have "lookup (Schemas fresh) (Chars ''testing'') 1 = None"
    by (simp add: fresh_def lookup_def)
  then have held: "lookup (Schemas registered) (Chars ''testing'') 1 = Some (testing 1)"
    by (simp add: registered_def lookup_AddSchema testing_def)
  have "keyed (Schemas fresh)"
    by (simp add: keyed_def fresh_def lookup_def)
  then have key: "keyed (Schemas registered)"
    unfolding registered_def by (rule keyed_AddSchema)
  have poll: "SQS_ReceiveMessage test_queue (time_Sleep (Rate test_queue) (waiting [?m]))
      = (Inr [?m], ?w)"
    by (rule poll_list_SQS) (simp add: test_queue_def)
  then have rcv: "receive test_queue (waiting [?m]) = Some (handle test_queue [?m] ?w)"
    by (rule receive_batch)
  then obtain z where Rcv: "Receive test_queue ?out (waiting [?m]) = Some z"
    by (cases "handle test_queue [?m] ?w"; cases "fst (handle test_queue [?m] ?w)")
       (auto simp: Receive_def)
  from registry_invariant [where w = registered and t = "Chars ''testing''" and v = 1
      and d = "testing 1" and n = test_queue and d' = "testing 2"
      and x = "notification_of (Typed (TestData ''string'' 1 True))"] held key
  have first: "lookup (Schemas (snd (AddSchema test_queue (testing 2) registered)))
        (Chars ''testing'') 1 = Some (testing 1)"
    and second: "keyed (Schemas (snd (AddSchema test_queue (testing 2) registered)))"
    and third: "Schemas (snd (Send test_queue (notification_of (Typed (TestData ''string'' 1 True)))
         registered)) = Schemas registered"
    by blast+
  have "\<forall>a. Schema (testing 1) \<noteq> Ref a"
    by (simp add: testing_def)
  with registry_invariant [where w = registered and n = test_queue and s = "testing 1"
      and x = "notification_of (Typed (TestData ''string'' 1 True))"] held
  have sixth: "store (snd (Send test_queue (notification_of (Typed (TestData ''string'' 1 True)))
         registered)) = store registered"
    by (simp add: notification_of_def)
  from registry_invariant [where w = "waiting [?m]" and n = test_queue
      and y = "handle test_queue [?m] ?w" and out = ?out and z = z] rcv Rcv
  have fourth: "Schemas (snd (handle test_queue [?m] ?w)) = Schemas (waiting [?m])"
    and fifth: "Schemas (snd z) = Schemas (waiting [?m])"
    by blast+
  from first second third rcv fourth fifth sixth Rcv show ?thesis by simp
qed

subsection \<open>Where the code leaves the path the specification describes\<close>

text \<open>
  C3. The decoding is not free of panics. With the schema \<open>testing\<close> of version 1
  registered, a message whose body is the JSON object
  \<open>{"type":"testing","version":1,"notification":5}\<close> passes \<open>json.Unmarshal\<close> and the
  lookup of the schema; \<open>Data\<close> then holds a \<open>float64\<close>, and the type assertion
  \<open>notification.Data.(string)\<close> panics, in both variants of \<open>handle\<close>. No error value is
  returned or written to the channel.
\<close>

theorem handle_panics_on_number_payload:
  "fst (handle test_queue [test_message ''h'' 1 (JNumber 5)] registered) = Panic InterfaceConversion
   \<and> fst (handle_chan test_queue [test_message ''h'' 1 (JNumber 5)] registered)
       = Some InterfaceConversion"
  by code_simp

text \<open>
  C5. A decoding that fails does not always return its error. The envelope
  \<open>{"type":"testing","version":1}\<close> has no \<open>notification\<close> member. \<open>json.Unmarshal\<close> takes
  it without an error and leaves \<open>Data\<close> nil; with the schema \<open>testing\<close> of version 1
  registered, the type assertion \<open>notification.Data.(string)\<close> then panics. A \<open>Receive\<close> of
  \<open>part_001\<close> whose poll gives this message panics: it returns no error to its caller. The
  calls made are the sleep and the poll, so the message was not deleted. \<open>handle\<close> of
  \<open>part_000\<close> panics on a batch that begins with this message: the state is as before,
  so no error was written to the channel, and the message after it was not handled. The
  same holds for the envelope whose \<open>notification\<close> member is \<open>null\<close>.
\<close>

theorem Receive_panics_on_missing_payload:
  "json_Unmarshal_Notification (Body (bare_message ''h''))
       \<lparr>Time = 0, Type = Chars [], Version = 0, Data = Generic GNil\<rparr>
     = Inr \<lparr>Time = 0, Type = Chars ''testing'', Version = 1, Data = Generic GNil\<rparr>
   \<and> Receive test_queue (notification_of (Generic GNil)) (waiting [bare_message ''h''])
     = Some (Panic InterfaceConversion, polled test_queue (waiting [bare_message ''h'']))
   \<and> calls (polled test_queue (waiting [bare_message ''h'']))
     = [CallSleep 1000000000, CallReceive (Chars ''test-queue'')]
   \<and> handle_chan test_queue [bare_message ''h'', test_message ''b'' 1 payload1] registered
     = (Some InterfaceConversion, registered)
   \<and> Receive test_queue (notification_of (Generic GNil)) (waiting [test_message ''h'' 1 JNull])
     = Some (Panic InterfaceConversion, polled test_queue (waiting [test_message ''h'' 1 JNull]))
   \<and> handle_chan test_queue [test_message ''h'' 1 JNull, test_message ''b'' 1 payload1] registered
     = (Some InterfaceConversion, registered)"
proof -
  have panics: "Receive test_queue (notification_of (Generic GNil)) (waiting [m])
      = Some (Panic InterfaceConversion, polled test_queue (waiting [m]))"
    if "decode (Schemas (polled test_queue (waiting [m]))) (store (polled test_queue (waiting [m]))) m
        = Panic InterfaceConversion" for m
  proof -
    have "SQS_ReceiveMessage test_queue (time_Sleep (Rate test_queue) (waiting [m]))
        = (Inr [m], polled test_queue (waiting [m]))"
      by (rule poll_list_SQS) (simp add: test_queue_def)
    then have "receive test_queue (waiting [m])
        = Some (handle test_queue [m] (polled test_queue (waiting [m])))"
      by (rule receive_batch)
    with that show ?thesis
      by (simp add: Receive_def handle_Cons)
  qed
  have envelope: "json_Unmarshal_Notification (Body (bare_message ''h''))
       \<lparr>Time = 0, Type = Chars [], Version = 0, Data = Generic GNil\<rparr>
     = Inr \<lparr>Time = 0, Type = Chars ''testing'', Version = 1, Data = Generic GNil\<rparr>"
    by code_simp
  have "decode (Schemas (polled test_queue (waiting [bare_message ''h''])))
      (store (polled test_queue (waiting [bare_message ''h'']))) (bare_message ''h'')
      = Panic InterfaceConversion"
    by code_simp
  then have missing: "Receive test_queue (notification_of (Generic GNil))
      (waiting [bare_message ''h''])
      = Some (Panic InterfaceConversion, polled test_queue (waiting [bare_message ''h'']))"
    by (rule panics)
  have "decode (Schemas (polled test_queue (waiting [test_message ''h'' 1 JNull])))
      (store (polled test_queue (waiting [test_message ''h'' 1 JNull])))
      (test_message ''h'' 1 JNull) = Panic InterfaceConversion"
    by code_simp
  then have null: "Receive test_queue (notification_of (Generic GNil))
      (waiting [test_message ''h'' 1 JNull])
      = Some (Panic InterfaceConversion, polled test_queue (waiting [test_message ''h'' 1 JNull]))"
    by (rule panics)
  have log: "calls (polled test_queue (waiting [bare_message ''h'']))
      = [CallSleep 1000000000, CallReceive (Chars ''test-queue'')]"
    by code_simp
  have "decode (Schemas registered) (store registered) (bare_message ''h'')
      = Panic InterfaceConversion"
    by code_simp
  then have loop: "handle_chan test_queue [bare_message ''h'', test_message ''b'' 1 payload1]
      registered = (Some InterfaceConversion, registered)"
    by (simp add: handle_chan_Cons)
  have "decode (Schemas registered) (store registered) (test_message ''h'' 1 JNull)
      = Panic InterfaceConversion"
    by code_simp
  then have loop': "handle_chan test_queue [test_message ''h'' 1 JNull, test_message ''b'' 1 payload1]
      registered = (Some InterfaceConversion, registered)"
    by (simp add: handle_chan_Cons)
  show ?thesis
    by (intro conjI envelope missing log loop null loop')
qed

text \<open>
  C9. \<open>Send\<close> modifies a registered descriptor whose exemplar is a pointer. The schema
  \<open>testing\<close> of version 1 is registered with the exemplar \<open>&TestData{}\<close>. \<open>Send\<close> copies the
  interface, not the object: \<open>json.Unmarshal(nd, &sc)\<close> follows the pointer and decodes the
  payload into the object of the exemplar. After a \<open>Send\<close> of the \<open>TestData\<close> with \<open>String\<close>
  "string", \<open>Int\<close> 1 and \<open>Bool\<close> true, which returns no error, the registry holds the same
  descriptor with the same pointer, and the exemplar it points to is no longer
  \<open>TestData{}\<close> but that payload. A \<open>Send\<close> that follows, of a payload with the one field
  \<open>String\<close> "x", sends \<open>Int\<close> 1 and \<open>Bool\<close> true with it: the values the \<open>Send\<close> before left
  in the exemplar. A \<open>Send\<close> that returns an error modifies the exemplar too: for a payload
  whose \<open>Int\<close> is a string it returns the type error of the decoder, and the \<open>String\<close> of the
  payload is in the exemplar.
\<close>

theorem Send_overwrites_pointer_exemplar:
  "lookup (Schemas registered_ref) (Chars ''testing'') 1 = Some (testing_ref 1)
   \<and> store registered_ref 0 = TestData [] 0 False
   \<and> fst (Send test_queue (notification_of (Typed (TestData ''string'' 1 True))) registered_ref)
       = None
   \<and> lookup (Schemas (snd (Send test_queue
         (notification_of (Typed (TestData ''string'' 1 True))) registered_ref)))
       (Chars ''testing'') 1 = Some (testing_ref 1)
   \<and> store (snd (Send test_queue
         (notification_of (Typed (TestData ''string'' 1 True))) registered_ref)) 0
       = TestData ''string'' 1 True
   \<and> last (calls (snd (Send test_queue
         (notification_of (Typed (TStruct [(''String'', TString (Chars ''x''))])))
         (snd (Send test_queue
            (notification_of (Typed (TestData ''string'' 1 True))) registered_ref)))))
       = CallSend
           (Json (JObject
             [(''time'', JString (RFC3339 1500000000000000000)),
              (''type'', JString (Chars ''testing'')),
              (''version'', JNumber 1),
              (''notification'', JString (Base64 (Json (JObject
                 [(''String'', JString (Chars ''x'')), (''Int'', JNumber 1),
                  (''Bool'', JBool True)]))))]))
           (Chars ''test-queue'')
   \<and> fst (Send test_queue
         (notification_of (Typed (TStruct [(''Int'', TString (Chars ''one'')),
            (''String'', TString (Chars ''x''))]))) registered_ref)
       = Some UnmarshalTypeError
   \<and> store (snd (Send test_queue
         (notification_of (Typed (TStruct [(''Int'', TString (Chars ''one'')),
            (''String'', TString (Chars ''x''))]))) registered_ref)) 0
       = TestData ''x'' 0 False"
  by code_simp

text \<open>
  A message of a schema whose exemplar is a pointer decodes to a pointer to a pointer to
  the payload: \<open>reflect.New\<close> makes a pointer to a nil pointer, and \<open>json.Unmarshal\<close> makes a
  new object for it. A key that differs from the name of a field by the long s or by the
  Kelvin sign selects that field.
\<close>

lemma handle_pointer_exemplar:
  "fst (handle test_queue [test_message ''h'' 1 payload1] registered_ref)
     = Return \<lparr>Time = 0, Type = Chars ''testing'', Version = 1,
               Data = PointerToPointer (TestData ''string'' 1 True)\<rparr>"
  by code_simp

lemma EqualFold_outside_ASCII:
  "find_field [CHR ''v'', CHR ''e'', CHR ''r'', CHR 0xC5, CHR 0xBF, CHR ''i'', CHR ''o'', CHR ''n'']
     [''time'', ''type'', ''version'', ''notification''] = Some 2
   \<and> EqualFold [CHR 0xE2, CHR 0x84, CHR 0xAA, CHR ''E'', CHR ''Y''] ''key''
   \<and> \<not> EqualFold ''verzion'' ''version''
   \<and> json_Unmarshal_Notification
         (Json (JObject
           [([CHR ''V'', CHR ''E'', CHR ''R'', CHR 0xC5, CHR 0xBF, CHR ''I'', CHR ''O'', CHR ''N''],
             JNumber 7)]))
         \<lparr>Time = 0, Type = Chars [], Version = 0, Data = Generic GNil\<rparr>
       = Inr \<lparr>Time = 0, Type = Chars [], Version = 7, Data = Generic GNil\<rparr>"
  by code_simp

text \<open>
  A second panic of the same path: a schema registered with the nil interface as its
  exemplar makes \<open>reflect.New\<close> panic once a message of that schema has been decoded that
  far.
\<close>

lemma handle_panics_on_nil_exemplar:
  "fst (handle test_queue [test_message ''h'' 3 payload1]
     (snd (AddSchema test_queue \<lparr>Schema.Type = Chars ''testing'', Version = 3, Schema = NoExemplar\<rparr>
        registered))) = Panic ReflectNewNil"
  by code_simp

text \<open>
  C2. \<open>Send\<close> does not bring the payload to the shape of the exemplar. The copy \<open>sc\<close> of the
  exemplar is an \<open>interface{}\<close> holding a struct value, so \<open>json.Unmarshal(nd, &sc)\<close> replaces
  it by a generic map of all the members of the payload. With the exemplar \<open>TestData{}\<close>
  (fields \<open>String\<close>, \<open>Int\<close>, \<open>Bool\<close>) registered, a payload that has the further field
  \<open>Extra\<close> is sent with that field, and a payload whose \<open>Int\<close> is a string is sent as it is,
  without an error.
\<close>

theorem Send_keeps_unknown_fields:
  "calls (snd (Send test_queue
      (notification_of (Typed (TStruct [(''String'', TString (Chars ''s'')), (''Int'', TInt 1),
         (''Bool'', TBool True), (''Extra'', TString (Chars ''x''))])))
      registered))
   = [CallSend
        (Json (JObject
          [(''time'', JString (RFC3339 1500000000000000000)),
           (''type'', JString (Chars ''testing'')),
           (''version'', JNumber 1),
           (''notification'', JString (Base64 (Json (JObject
              [(''Bool'', JBool True), (''Extra'', JString (Chars ''x'')), (''Int'', JNumber 1),
               (''String'', JString (Chars ''s''))]))))]))
        (Chars ''test-queue'')]
   \<and> fst (Send test_queue (notification_of (Typed (TStruct [(''Int'', TString (Chars ''one''))])))
       registered) = None
   \<and> calls (snd (Send test_queue
       (notification_of (Typed (TStruct [(''Int'', TString (Chars ''one''))]))) registered))
   = [CallSend
        (Json (JObject
          [(''time'', JString (RFC3339 1500000000000000000)),
           (''type'', JString (Chars ''testing'')),
           (''version'', JNumber 1),
           (''notification'', JString (Base64 (Json (JObject
              [(''Int'', JString (Chars ''one''))]))))]))
        (Chars ''test-queue'')]"
  by code_simp

text \<open>
  C1. Decoding what \<open>Send\<close> encoded does not always give the payload back. The generic map
  of \<open>Send\<close> holds every number as a \<open>float64\<close>: the \<open>int\<close> 9007199254740993 (\<open>2 ^ 53 + 1\<close>)
  of a \<open>TestData\<close> is sent as 9007199254740992, and \<open>handle\<close> returns a notification whose
  \<open>Int\<close> is that other number.
\<close>

theorem round_trip_changes_large_int:
  "fst (Send test_queue (notification_of (Typed (TestData ''string'' 9007199254740993 True)))
      registered) = None
   \<and> fst (handle test_queue
        (remote (snd (Send test_queue
           (notification_of (Typed (TestData ''string'' 9007199254740993 True))) registered)))
        (snd (Send test_queue
           (notification_of (Typed (TestData ''string'' 9007199254740993 True))) registered)))
     = Return \<lparr>Time = 1500000000000000000, Type = Chars ''testing'', Version = 1,
               Data = Pointer (TestData ''string'' 9007199254740992 True)\<rparr>
   \<and> TestData ''string'' 9007199254740992 True \<noteq> TestData ''string'' 9007199254740993 True"
  by code_simp

text \<open>
  The scenario of \<open>notify_test.go\<close>: the \<open>TestData\<close> with \<open>String\<close> "string", \<open>Int\<close> 1 and
  \<open>Bool\<close> true is sent, and the next \<open>Receive\<close> returns it and deletes the message once.
\<close>

lemma poll_remote:
  "SQS n = list_SQS \<Longrightarrow>
   SQS_ReceiveMessage n (time_Sleep (Rate n) w) = (Inr (remote w), polled n w)"
  by (simp add: polled_def SQS_ReceiveMessage_def time_Sleep_def list_SQS_def)

lemma test_scenario:
  "fst (Send test_queue (notification_of (Typed (TestData ''string'' 1 True))) registered) = None
   \<and> map_option fst (Receive test_queue (notification_of (Generic GNil))
        (snd (Send test_queue (notification_of (Typed (TestData ''string'' 1 True))) registered)))
     = Some (Return (None, \<lparr>Time = 1500000000000000000, Type = Chars ''testing'', Version = 1,
               Data = Pointer (TestData ''string'' 1 True)\<rparr>))
   \<and> length (filter (\<lambda>c. case c of CallDelete url h \<Rightarrow> True | _ \<Rightarrow> False)
        (calls (snd (the (Receive test_queue (notification_of (Generic GNil))
        (snd (Send test_queue (notification_of (Typed (TestData ''string'' 1 True))) registered))))))) = 1"
proof -
  let ?sent = "snd (Send test_queue (notification_of (Typed (TestData ''string'' 1 True))) registered)"
  let ?x = "\<lparr>Time = 1500000000000000000, Type = Chars ''testing'', Version = 1,
             Data = Pointer (TestData ''string'' 1 True)\<rparr>"
  have ok: "fst (Send test_queue (notification_of (Typed (TestData ''string'' 1 True))) registered) = None"
    by code_simp
  have "SQS_ReceiveMessage test_queue (time_Sleep (Rate test_queue) ?sent)
      = (Inr (remote ?sent), polled test_queue ?sent)"
    by (rule poll_remote) (simp add: test_queue_def)
  moreover have "remote ?sent \<noteq> []"
    by code_simp
  ultimately have rcv: "receive test_queue ?sent
      = Some (handle test_queue (remote ?sent) (polled test_queue ?sent))"
    by (cases "remote ?sent") (simp_all add: receive_batch)
  have res: "fst (handle test_queue (remote ?sent) (polled test_queue ?sent)) = Return ?x"
    by code_simp
  have del: "length (filter (\<lambda>c. case c of CallDelete url h \<Rightarrow> True | _ \<Rightarrow> False)
      (calls (snd (handle test_queue (remote ?sent) (polled test_queue ?sent))))) = 1"
    by code_simp
  have "Receive test_queue (notification_of (Generic GNil)) ?sent
      = Some (Return (None, ?x), snd (handle test_queue (remote ?sent) (polled test_queue ?sent)))"
    using rcv res
    by (cases "handle test_queue (remote ?sent) (polled test_queue ?sent)") (simp add: Receive_def)
  with ok del show ?thesis by simp
qed

subsection \<open>The round trip on numbers that \<open>float64\<close> holds exactly\<close>

text \<open>Up to \<open>2 ^ 53\<close> a number passes through \<open>float64\<close> and back unchanged.\<close>

lemma bitlen_le_53: "\<bar>n\<bar> < 2 ^ 53 \<Longrightarrow> bitlen \<bar>n\<bar> \<le> 53"
proof (rule ccontr)
  assume small: "\<bar>n\<bar> < 2 ^ 53" and "\<not> bitlen \<bar>n\<bar> \<le> 53"
  then have big: "54 \<le> bitlen \<bar>n\<bar>" by simp
  have pos: "0 < \<bar>n\<bar>"
  proof (rule ccontr)
    assume "\<not> 0 < \<bar>n\<bar>"
    then have "bitlen \<bar>n\<bar> = 0" by (simp add: bitlen_eq_zero_iff)
    with big show False by simp
  qed
  from bitlen_bounds [OF pos] have "2 ^ nat (bitlen \<bar>n\<bar> - 1) \<le> \<bar>n\<bar>" by simp
  moreover from big have "(2::int) ^ 53 \<le> 2 ^ nat (bitlen \<bar>n\<bar> - 1)"
    by (intro power_increasing) auto
  ultimately show False using small by linarith
qed

lemma number_at_bound:
  "float64_round 9007199254740992 = 9007199254740992"
  "FormatFloat 9007199254740992 = 9007199254740992"
  "ParseFloat 9007199254740992 = Some 9007199254740992"
  "float64_round (- 9007199254740992) = - 9007199254740992"
  "FormatFloat (- 9007199254740992) = - 9007199254740992"
  "ParseFloat (- 9007199254740992) = Some (- 9007199254740992)"
  by code_simp+

lemma number_exact:
  assumes "\<bar>n\<bar> \<le> 2 ^ 53"
  shows "float64_round n = n \<and> FormatFloat n = n \<and> ParseFloat n = Some n"
proof -
  have "\<bar>n\<bar> < 2 ^ 53 \<or> n = 9007199254740992 \<or> n = - 9007199254740992"
    using assms by simp linarith
  then show ?thesis
  proof (elim disjE)
    assume small: "\<bar>n\<bar> < 2 ^ 53"
    then have e: "bitlen \<bar>n\<bar> - 53 \<le> 0"
      using bitlen_le_53 [of n] by simp
    have r: "float64_round n = n"
      unfolding float64_round_def Let_def by (simp only: e if_True)
    have f: "FormatFloat n = n"
      unfolding FormatFloat_def Let_def by (simp only: e if_True)
    have "(2::int) ^ 53 \<le> 2 ^ 1024"
      by (rule power_increasing) simp_all
    with small have "\<not> 2 ^ 1024 \<le> \<bar>n\<bar>" by linarith
    then have "ParseFloat n = Some n"
      unfolding ParseFloat_def Let_def r by (simp only: if_False)
    with r f show ?thesis by simp
  next
    assume "n = 9007199254740992"
    then show ?thesis by (simp only: number_at_bound)
  next
    assume "n = - 9007199254740992"
    then show ?thesis by (simp only: number_at_bound)
  qed
qed

lemma ParseInt_sint: "ParseInt (sint i) = Some i"
proof -
  have "- (2 ^ 63) \<le> sint i" "sint i < 2 ^ 63"
    using sint_ge [of i] sint_lt [of i] by simp_all
  then show ?thesis by (simp add: ParseInt_def)
qed


lemma map_store_keys: "fst ` set (map_store k v m) = insert k (fst ` set m)"
proof (induction m)
  case Nil
  show ?case by simp
next
  case (Cons a m)
  obtain k' v' where a: "a = (k', v')" by (cases a)
  show ?case
    unfolding a by (simp add: Cons.IH insert_commute)
qed

lemma map_store_member:
  "(k', g) \<in> set (map_store k v m) \<Longrightarrow> (k' = k \<and> g = v) \<or> (k', g) \<in> set m"
  by (induction m) (auto split: if_splits)

lemma map_store_sorted:
  "sorted_wrt (<) (map fst m) \<Longrightarrow> sorted_wrt (<) (map fst (map_store k v m))"
proof (induction m)
  case Nil
  show ?case by simp
next
  case (Cons a m)
  obtain k' v' where a: "a = (k', v')" by (cases a)
  from Cons.prems a have tail: "sorted_wrt (<) (map fst m)" and above: "\<forall>x\<in>set m. k' < fst x"
    by auto
  show ?case
  proof (cases "k = k'")
    case True
    with a above tail show ?thesis by auto
  next
    case False
    show ?thesis
    proof (cases "k < k'")
      case True
      with a above tail \<open>k \<noteq> k'\<close> show ?thesis by (auto intro: less_trans)
    next
      case False
      with \<open>k \<noteq> k'\<close> have "k' < k" by auto
      moreover have "\<forall>x \<in> set (map_store k v m). k' < fst x"
      proof
        fix x assume "x \<in> set (map_store k v m)"
        then have "fst x \<in> fst ` set (map_store k v m)" by (rule imageI)
        then have "fst x = k \<or> fst x \<in> fst ` set m" by (simp add: map_store_keys)
        with \<open>k' < k\<close> above show "k' < fst x" by auto
      qed
      ultimately show ?thesis
        using a False \<open>k \<noteq> k'\<close> Cons.IH [OF tail] by auto
    qed
  qed
qed

lemma marshal_entries_keys: "map fst (marshal_entries m) = map fst m"
  by (induction m) auto

lemma marshal_fields_keys: "map fst (marshal_fields fs) = map fst fs"
  by (induction fs) auto

lemma sorted_entries:
  assumes "sorted_wrt (<) (map fst m)"
  shows "sort_key fst (marshal_entries m) = marshal_entries m"
proof -
  from assms have "sorted (map fst m)"
    by (simp add: strict_sorted_iff)
  then have "sorted (map fst (marshal_entries m))"
    by (simp add: marshal_entries_keys)
  then show ?thesis by (rule sort_key_id_if_sorted)
qed

lemma generic_members_ok:
  assumes "\<forall>k v. (k, v) \<in> set fs \<longrightarrow> (\<exists>g. generic (marshal_tval v) = Inr g)"
    and "sorted_wrt (<) (map fst acc)"
  shows "\<exists>m. generic_members (marshal_fields fs) acc = Inr m
           \<and> sorted_wrt (<) (map fst m)
           \<and> fst ` set m = fst ` set acc \<union> fst ` set fs
           \<and> (\<forall>k g. (k, g) \<in> set m \<longrightarrow>
                 (k, g) \<in> set acc \<or> (\<exists>v. (k, v) \<in> set fs \<and> generic (marshal_tval v) = Inr g))"
  using assms
proof (induction fs arbitrary: acc)
  case Nil
  then show ?case by simp
next
  case (Cons a fs)
  obtain k v where a: "a = (k, v)" by (cases a)
  from Cons.prems(1) a obtain g where g: "generic (marshal_tval v) = Inr g"
    by auto
  have sorted': "sorted_wrt (<) (map fst (map_store k g acc))"
    using Cons.prems(2) by (rule map_store_sorted)
  have rest: "\<forall>k v. (k, v) \<in> set fs \<longrightarrow> (\<exists>g. generic (marshal_tval v) = Inr g)"
    using Cons.prems(1) by auto
  have "\<exists>m. generic_members (marshal_fields fs) (map_store k g acc) = Inr m
           \<and> sorted_wrt (<) (map fst m)
           \<and> fst ` set m = fst ` set (map_store k g acc) \<union> fst ` set fs
           \<and> (\<forall>k' g'. (k', g') \<in> set m \<longrightarrow>
                 (k', g') \<in> set (map_store k g acc)
                 \<or> (\<exists>v. (k', v) \<in> set fs \<and> generic (marshal_tval v) = Inr g'))"
    using rest sorted' by (rule Cons.IH)
  then obtain m where
    m: "generic_members (marshal_fields fs) (map_store k g acc) = Inr m"
    and ms: "sorted_wrt (<) (map fst m)"
    and mk: "fst ` set m = fst ` set (map_store k g acc) \<union> fst ` set fs"
    and me: "\<forall>k' g'. (k', g') \<in> set m \<longrightarrow>
        (k', g') \<in> set (map_store k g acc)
        \<or> (\<exists>v. (k', v) \<in> set fs \<and> generic (marshal_tval v) = Inr g')"
    by blast
  have "generic_members (marshal_fields (a # fs)) acc = Inr m"
    using a g m by simp
  moreover have "fst ` set m = fst ` set acc \<union> fst ` set (a # fs)"
    using mk a by (auto simp: map_store_keys)
  moreover have "\<forall>k' g'. (k', g') \<in> set m \<longrightarrow>
      (k', g') \<in> set acc \<or> (\<exists>v. (k', v) \<in> set (a # fs) \<and> generic (marshal_tval v) = Inr g')"
  proof (intro allI impI)
    fix k' g' assume "(k', g') \<in> set m"
    with me have "(k', g') \<in> set (map_store k g acc)
        \<or> (\<exists>v. (k', v) \<in> set fs \<and> generic (marshal_tval v) = Inr g')" by blast
    then show "(k', g') \<in> set acc
        \<or> (\<exists>v. (k', v) \<in> set (a # fs) \<and> generic (marshal_tval v) = Inr g')"
    proof
      assume "(k', g') \<in> set (map_store k g acc)"
      from map_store_member [OF this] a g show ?thesis by auto
    next
      assume "\<exists>v. (k', v) \<in> set fs \<and> generic (marshal_tval v) = Inr g'"
      then show ?thesis by auto
    qed
  qed
  ultimately show ?case using ms by blast
qed

lemma position_exact:
  "k \<in> set names \<Longrightarrow>
   \<exists>i. position (\<lambda>n. n = k) names = Some i \<and> i < length names \<and> names ! i = k"
proof (induction names)
  case Nil
  then show ?case by simp
next
  case (Cons a names)
  show ?case
  proof (cases "a = k")
    case True
    then show ?thesis by simp
  next
    case False
    with Cons.prems have "k \<in> set names" by simp
    from Cons.IH [OF this] obtain i where
      "position (\<lambda>n. n = k) names = Some i" "i < length names" "names ! i = k" by blast
    with False show ?thesis by simp
  qed
qed

lemma find_field_exact:
  "k \<in> set names \<Longrightarrow> \<exists>i. find_field k names = Some i \<and> i < length names \<and> names ! i = k"
  using position_exact [of k names] by (auto simp: find_field_def)

text \<open>
  The generic map of a struct has one entry per field, in increasing key order, and
  decoding its members into a value of the same type sets every field.
\<close>

lemma conforms_fields_names: "conforms_fields es fs \<Longrightarrow> map fst es = map fst fs"
proof (induction es arbitrary: fs)
  case Nil
  then show ?case by (cases fs) auto
next
  case (Cons e es)
  then show ?case by (cases fs; cases e) auto
qed

lemma conforms_fields_nth:
  "conforms_fields es fs \<Longrightarrow> i < length fs \<Longrightarrow> conforms (snd (es ! i)) (snd (fs ! i))"
proof (induction es arbitrary: fs i)
  case Nil
  then show ?case by (cases fs) auto
next
  case (Cons e es)
  then show ?case by (cases fs; cases e; cases i) auto
qed

lemma conforms_fieldsI:
  "map fst es = map fst fs \<Longrightarrow> (\<And>i. i < length fs \<Longrightarrow> conforms (snd (es ! i)) (snd (fs ! i)))
   \<Longrightarrow> conforms_fields es fs"
proof (induction es arbitrary: fs)
  case Nil
  then show ?case by simp
next
  case (Cons e es)
  from Cons.prems(1) obtain f fs' where fs: "fs = f # fs'" by (cases fs) auto
  obtain k x where e: "e = (k, x)" by (cases e)
  obtain k' v where f: "f = (k', v)" by (cases f)
  from Cons.prems(2) [of 0] fs e f have "conforms x v" by simp
  moreover have "conforms_fields es fs'"
  proof (rule Cons.IH)
    show "map fst es = map fst fs'" using Cons.prems(1) fs by simp
    show "conforms (snd (es ! i)) (snd (fs' ! i))" if "i < length fs'" for i
      using Cons.prems(2) [of "Suc i"] that fs by simp
  qed
  ultimately show ?case using Cons.prems(1) fs e f by simp
qed

lemma conforms_refl: "conforms v v"
proof (induction v)
  case (TStruct fs)
  have "conforms_fields fs fs"
  proof (rule conforms_fieldsI)
    show "map fst fs = map fst fs" by simp
    show "conforms (snd (fs ! i)) (snd (fs ! i))" if "i < length fs" for i
    proof (rule TStruct.IH)
      show "fs ! i \<in> set fs" using that by simp
      show "snd (fs ! i) \<in> Basic_BNFs.snds (fs ! i)" by (cases "fs ! i") simp
    qed
  qed
  then show ?case by simp
qed simp_all

lemma map_of_nth:
  "distinct (map fst fs) \<Longrightarrow> i < length fs \<Longrightarrow> map_of fs (fst (fs ! i)) = Some (snd (fs ! i))"
  by (simp add: map_of_eq_Some_iff)

lemma decode_members_entries:
  assumes names: "distinct (map fst fs)"
    and same: "map fst zs = map fst fs"
    and conf: "\<And>i. i < length fs \<Longrightarrow> conforms (snd (zs ! i)) (snd (fs ! i))"
    and keys: "distinct (map fst m)"
    and ent: "\<And>k g. (k, g) \<in> set m \<Longrightarrow>
        \<exists>v. (k, v) \<in> set fs \<and> (\<forall>z. conforms z v \<longrightarrow> decode_tval z (marshal_gval g) = (v, None))"
  shows "decode_members zs (marshal_entries m) =
     (map (\<lambda>(k, z). if k \<in> fst ` set m then (k, the (map_of fs k)) else (k, z)) zs, None)"
  using same conf keys ent
proof (induction m arbitrary: zs)
  case Nil
  then show ?case by (simp add: case_prod_beta)
next
  case (Cons a m)
  obtain k g where a: "a = (k, g)" by (cases a)
  from Cons.prems(4) [of k g] a obtain v where
    v: "(k, v) \<in> set fs" and dec: "\<And>z. conforms z v \<Longrightarrow> decode_tval z (marshal_gval g) = (v, None)"
    by auto
  have len: "length zs = length fs" using Cons.prems(1) by (metis length_map)
  from v have "k \<in> set (map fst zs)" using Cons.prems(1) by force
  from find_field_exact [OF this] obtain i where
    i: "find_field k (map fst zs) = Some i" "i < length zs" "fst (zs ! i) = k"
    by auto
  have fsi: "fst (fs ! i) = k"
    using i len Cons.prems(1) by (metis nth_map)
  have vi: "snd (fs ! i) = v"
    using map_of_nth [OF names, of i] i len fsi v names by (simp add: map_of_eq_Some_iff)
  have step: "decode_tval (snd (zs ! i)) (marshal_gval g) = (v, None)"
    using dec Cons.prems(2) [of i] i len vi by simp
  let ?zs = "zs[i := (k, v)]"
  have ih: "decode_members ?zs (marshal_entries m) =
     (map (\<lambda>(k, z). if k \<in> fst ` set m then (k, the (map_of fs k)) else (k, z)) ?zs, None)"
  proof (rule Cons.IH)
    have "map fst zs ! i = k" using i by simp
    then have "(map fst zs)[i := k] = map fst zs"
      using list_update_id [of "map fst zs" i] by simp
    then have "map fst ?zs = map fst zs" by (simp add: map_update)
    then show "map fst ?zs = map fst fs"
      using Cons.prems(1) by simp
    show "conforms (snd (?zs ! j)) (snd (fs ! j))" if "j < length fs" for j
      using that Cons.prems(2) [of j] vi len conforms_refl [of v]
      by (cases "j = i") auto
    show "distinct (map fst m)" using Cons.prems(3) by simp
    show "\<exists>v. (k, v) \<in> set fs \<and> (\<forall>z. conforms z v \<longrightarrow> decode_tval z (marshal_gval g) = (v, None))"
      if "(k, g) \<in> set m" for k g
      using Cons.prems(4) [of k g] that by simp
  qed
  have fresh_key: "k \<notin> fst ` set m" using Cons.prems(3) a by auto
  have "map (\<lambda>(k, z). if k \<in> fst ` set m then (k, the (map_of fs k)) else (k, z)) ?zs
      = map (\<lambda>(k, z). if k \<in> fst ` set (a # m) then (k, the (map_of fs k)) else (k, z)) zs"
  proof (rule nth_equalityI)
    show "length (map (\<lambda>(k, z). if k \<in> fst ` set m then (k, the (map_of fs k)) else (k, z)) ?zs)
        = length (map (\<lambda>(k, z). if k \<in> fst ` set (a # m) then (k, the (map_of fs k)) else (k, z)) zs)"
      by simp
  next
    fix j
    assume "j < length (map (\<lambda>(k, z). if k \<in> fst ` set m then (k, the (map_of fs k)) else (k, z)) ?zs)"
    then have j: "j < length zs" by simp
    show "map (\<lambda>(k, z). if k \<in> fst ` set m then (k, the (map_of fs k)) else (k, z)) ?zs ! j
        = map (\<lambda>(k, z). if k \<in> fst ` set (a # m) then (k, the (map_of fs k)) else (k, z)) zs ! j"
    proof (cases "j = i")
      case True
      have "map_of fs k = Some v" using v names by (simp add: map_of_eq_Some_iff)
      with True j fresh_key a i show ?thesis by (simp add: case_prod_beta)
    next
      case False
      have "fst (zs ! j) \<noteq> k"
      proof
        assume "fst (zs ! j) = k"
        with i have eq: "map fst zs ! j = map fst zs ! i" using j by simp
        have d: "distinct (map fst zs)" using names Cons.prems(1) by simp
        have "j < length (map fst zs)" "i < length (map fst zs)" using j i by simp_all
        with d eq have "j = i" by (simp only: nth_eq_iff_index_eq)
        with False show False by simp
      qed
      with False j a show ?thesis by (simp add: case_prod_beta)
    qed
  qed
  with ih i step a show ?case by simp
qed

lemma well_typed_field: "well_typed_fields fs \<Longrightarrow> (k, v) \<in> set fs \<Longrightarrow> well_typed v"
  by (induction fs) auto

lemma exact_field: "exact_fields fs \<Longrightarrow> (k, v) \<in> set fs \<Longrightarrow> exact v"
  by (induction fs) auto

lemma all_fields:
  assumes "distinct (map fst fs)" and "map fst zs = map fst fs"
  shows "map (\<lambda>(k, z). if k \<in> fst ` set fs then (k, the (map_of fs k)) else (k, z)) zs = fs"
proof (rule nth_equalityI)
  show "length (map (\<lambda>(k, z). if k \<in> fst ` set fs then (k, the (map_of fs k)) else (k, z)) zs)
      = length fs"
    using assms(2) by (metis length_map)
next
  fix i
  assume "i < length (map (\<lambda>(k, z). if k \<in> fst ` set fs then (k, the (map_of fs k)) else (k, z)) zs)"
  then have i: "i < length zs" by simp
  then have i': "i < length fs" using assms(2) by (metis length_map)
  have k: "fst (zs ! i) = fst (fs ! i)"
    using assms(2) i i' by (metis nth_map)
  have "fst (fs ! i) \<in> fst ` set fs" using i' by simp
  moreover have "map_of fs (fst (fs ! i)) = Some (snd (fs ! i))"
    using assms(1) i' by (rule map_of_nth)
  ultimately show "map (\<lambda>(k, z). if k \<in> fst ` set fs then (k, the (map_of fs k)) else (k, z)) zs ! i
      = fs ! i"
    using i k by (simp add: case_prod_beta)
qed

lemma normal_form_decodes:
  "well_typed v \<Longrightarrow> exact v \<Longrightarrow>
   \<exists>g. generic (marshal_tval v) = Inr g
     \<and> (\<forall>z. conforms z v \<longrightarrow> decode_tval z (marshal_gval g) = (v, None))"
proof (induction v)
  case (TBool b)
  have "decode_tval z (JBool b) = (TBool b, None)" if "conforms z (TBool b)" for z
    using that by (cases z) simp_all
  then show ?case by simp
next
  case (TInt i)
  then have "\<bar>sint i\<bar> \<le> 2 ^ 53" by simp
  from number_exact [OF this]
  have n: "ParseFloat (sint i) = Some (sint i)" "FormatFloat (sint i) = sint i" by simp_all
  have "decode_tval z (JNumber (sint i)) = (TInt i, None)" if "conforms z (TInt i)" for z
    using that by (cases z) (simp_all add: ParseInt_sint)
  with n show ?case by simp
next
  case (TString s)
  have "decode_tval z (JString s) = (TString s, None)" if "conforms z (TString s)" for z
    using that by (cases z) simp_all
  then show ?case by simp
next
  case (TStruct fs)
  from TStruct.prems have names: "distinct (map fst fs)" and wt: "well_typed_fields fs"
    and ex: "exact_fields fs" by simp_all
  have each: "\<exists>g. generic (marshal_tval v) = Inr g
      \<and> (\<forall>z. conforms z v \<longrightarrow> decode_tval z (marshal_gval g) = (v, None))"
    if "(k, v) \<in> set fs" for k v
  proof (rule TStruct.IH)
    show "(k, v) \<in> set fs" by (rule that)
    show "v \<in> Basic_BNFs.snds (k, v)" by simp
    show "well_typed v" using wt that by (rule well_typed_field)
    show "exact v" using ex that by (rule exact_field)
  qed
  have "\<exists>m. generic_members (marshal_fields fs) [] = Inr m
           \<and> sorted_wrt (<) (map fst m)
           \<and> fst ` set m = fst ` set ([] :: (string \<times> gval) list) \<union> fst ` set fs
           \<and> (\<forall>k g. (k, g) \<in> set m \<longrightarrow>
                 (k, g) \<in> set [] \<or> (\<exists>v. (k, v) \<in> set fs \<and> generic (marshal_tval v) = Inr g))"
  proof (rule generic_members_ok)
    show "\<forall>k v. (k, v) \<in> set fs \<longrightarrow> (\<exists>g. generic (marshal_tval v) = Inr g)"
      using each by blast
    show "sorted_wrt (<) (map fst [])" by simp
  qed
  then obtain m where m: "generic_members (marshal_fields fs) [] = Inr m"
    and ms: "sorted_wrt (<) (map fst m)"
    and mk: "fst ` set m = fst ` set fs"
    and me: "\<And>k g. (k, g) \<in> set m \<Longrightarrow> \<exists>v. (k, v) \<in> set fs \<and> generic (marshal_tval v) = Inr g"
    by auto
  have md: "distinct (map fst m)"
    using ms by (simp add: strict_sorted_iff)
  have ent: "\<exists>v. (k, v) \<in> set fs \<and> (\<forall>z. conforms z v \<longrightarrow> decode_tval z (marshal_gval g) = (v, None))"
    if "(k, g) \<in> set m" for k g
  proof -
    from me [OF that] obtain v where v: "(k, v) \<in> set fs" "generic (marshal_tval v) = Inr g"
      by blast
    from each [OF v(1)] v(2) show ?thesis using v(1) by auto
  qed
  have "decode_tval z (marshal_gval (GMap m)) = (TStruct fs, None)" if "conforms z (TStruct fs)" for z
  proof -
    from that obtain zs where z: "z = TStruct zs" and c: "conforms_fields zs fs"
      by (cases z) simp_all
    have same: "map fst zs = map fst fs" using c by (rule conforms_fields_names)
    have "decode_members zs (marshal_entries m) =
        (map (\<lambda>(k, z). if k \<in> fst ` set m then (k, the (map_of fs k)) else (k, z)) zs, None)"
      using names same conforms_fields_nth [OF c] md ent
      by (rule decode_members_entries)
    also have "\<dots> = (fs, None)"
      unfolding mk using all_fields [OF names same] by simp
    finally show ?thesis
      using z by (simp add: sorted_entries [OF ms])
  qed
  with m show ?case by simp
qed

lemma conforms_zero: "conforms e v \<Longrightarrow> conforms (zero e) v"
proof (induction e arbitrary: v)
  case (TStruct es)
  from TStruct.prems obtain fs where v: "v = TStruct fs" and c: "conforms_fields es fs"
    by (cases v) simp_all
  have names: "map fst (zero_fields es) = map fst es" for es
    by (induction es) auto
  have nth: "snd (zero_fields es ! i) = zero (snd (es ! i))" if "i < length es" for es i
    using that
  proof (induction es arbitrary: i)
    case Nil
    then show ?case by simp
  next
    case (Cons a es)
    then show ?case by (cases a; cases i) auto
  qed
  have len: "length es = length fs"
    using conforms_fields_names [OF c] by (metis length_map)
  have "conforms_fields (zero_fields es) fs"
  proof (rule conforms_fieldsI)
    show "map fst (zero_fields es) = map fst fs"
      using names conforms_fields_names [OF c] by simp
    show "conforms (snd (zero_fields es ! i)) (snd (fs ! i))" if "i < length fs" for i
    proof -
      have "conforms (zero (snd (es ! i))) (snd (fs ! i))"
      proof (rule TStruct.IH)
        show "es ! i \<in> set es" using that len by simp
        show "snd (es ! i) \<in> Basic_BNFs.snds (es ! i)" by (cases "es ! i") simp
        show "conforms (snd (es ! i)) (snd (fs ! i))" using c that by (rule conforms_fields_nth)
      qed
      then show ?thesis using nth that len by simp
    qed
  qed
  with v show ?case by simp
next
  case (TBool b)
  then show ?case by (cases v) simp_all
next
  case (TInt i)
  then show ?case by (cases v) simp_all
next
  case (TString s)
  then show ?case by (cases v) simp_all
qed

lemma envelope_decodes:
  "json_Unmarshal_Notification
     (Json (JObject [(''time'', JString (RFC3339 t)), (''type'', JString ty),
                     (''version'', JNumber (sint ver)), (''notification'', JString b)]))
     \<lparr>Time = 0, Type = Chars [], Version = 0, Data = Generic GNil\<rparr>
   = Inr \<lparr>Time = t, Type = ty, Version = ver, Data = Generic (GString b)\<rparr>"
  by (simp add: json_Unmarshal_Notification_def EqualFold_def lower_def ParseInt_sint)

text \<open>
  When the schema of a notification is registered with the exemplar \<open>ex\<close> and the payload
  \<open>v\<close> has the type of \<open>ex\<close> and is exact, \<open>Send\<close> sends one message, and decoding a message
  of that body returns the notification with the time of sending and a pointer to a value
  equal to \<open>v\<close>.
\<close>

theorem round_trip_exact:
  assumes "lookup (Schemas w) (Notification.Type x) (Notification.Version x) = Some schema"
    and "Schema schema = Value ex" and "Data x = Typed v"
    and "conforms ex v" and "well_typed v" and "exact v"
  shows "\<exists>body. Send n x w = SQS_SendMessage n body w
           \<and> decode (Schemas w) (store w) \<lparr>Body = body, ReceiptHandle = h\<rparr>
               = Return (x\<lparr>Time := clock w, Data := Pointer v\<rparr>)"
proof -
  from normal_form_decodes [OF assms(5,6)] obtain g where
    g: "generic (marshal_tval v) = Inr g"
    and again: "\<And>z. conforms z v \<Longrightarrow> decode_tval z (marshal_gval g) = (v, None)"
    by blast
  let ?body = "Json (JObject [(''time'', JString (RFC3339 (clock w))),
      (''type'', JString (Notification.Type x)),
      (''version'', JNumber (sint (Notification.Version x))),
      (''notification'', JString (Base64 (Json (marshal_gval g))))])"
  have send: "Send n x w = SQS_SendMessage n ?body w"
    using assms(1,2,3) g
    by (simp add: Send_def json_Marshal_def json_Unmarshal_interface_def
        json_Marshal_Notification_def base64_EncodeToString_def)
  have "decode_tval (zero ex) (marshal_gval g) = (v, None)"
    using again conforms_zero [OF assms(4)] by simp
  then have "decode (Schemas w) (store w) \<lparr>Body = ?body, ReceiptHandle = h\<rparr>
      = Return (x\<lparr>Time := clock w, Data := Pointer v\<rparr>)"
    using assms(1,2)
    by (simp add: decode_def envelope_decodes base64_DecodeString_def reflect_New_def
        json_Unmarshal_pointer_def)
  with send show ?thesis by blast
qed

theorem round_trip_exact_witness:
  "\<exists>body. Send test_queue (notification_of (Typed (TestData ''string'' 1 True))) registered
             = SQS_SendMessage test_queue body registered
         \<and> decode (Schemas registered) (store registered) \<lparr>Body = body, ReceiptHandle = Chars ''h''\<rparr>
             = Return \<lparr>Time = 1500000000000000000, Type = Chars ''testing'', Version = 1,
                       Data = Pointer (TestData ''string'' 1 True)\<rparr>"
proof -
  have "lookup (Schemas fresh) (Chars ''testing'') 1 = None"
    by (simp add: fresh_def lookup_def)
  then have held: "lookup (Schemas registered)
      (Notification.Type (notification_of (Typed (TestData ''string'' 1 True))))
      (Notification.Version (notification_of (Typed (TestData ''string'' 1 True))))
      = Some (testing 1)"
    by (simp add: registered_def lookup_AddSchema testing_def notification_of_def)
  have ex: "Schema (testing 1) = Value (TestData [] 0 False)"
    by (simp add: testing_def)
  have data: "Data (notification_of (Typed (TestData ''string'' 1 True)))
      = Typed (TestData ''string'' 1 True)"
    by (simp add: notification_of_def)
  have c: "conforms (TestData [] 0 False) (TestData ''string'' 1 True)"
    and t: "well_typed (TestData ''string'' 1 True)"
    and e: "exact (TestData ''string'' 1 True)"
    by code_simp+
  have now: "clock registered = 1500000000000000000"
    by (simp add: registered_def AddSchema_frame fresh_def)
  from round_trip_exact [OF held ex data c t e, of test_queue "Chars ''h''"] now
  show ?thesis by (simp add: notification_of_def)
qed

end
